theory Spec2Isabelle
  imports Complex_Main "HOL-Library.List_Lexorder"
begin

section \<open>The Desk API connector of the Panda arm (PandaConnector.py)\<close>

text \<open>
  The class \<^verbatim>\<open>PandaConnector\<close> talks to the web server of the arm through a
  \<^verbatim>\<open>requests.Session\<close>. Its methods are embedded as functions that take the
  connector object and the outside world and give back the result of the method together
  with the connector and the world as the method leaves them.
\<close>

subsection \<open>Values of the Python run\<close>

text \<open>
  A Python float: a finite binary64 value, given by the real number it denotes, one of
  the two infinities, or NaN. The two zeros are not told apart (they compare equal).
\<close>

datatype pyfloat = Fin real | PInf | NInf | NaN

text \<open>
  Python's \<^verbatim>\<open><\<close>, \<^verbatim>\<open><=\<close> and \<^verbatim>\<open>==\<close> on floats: every comparison with NaN is
  false.
\<close>

fun fl_lt :: "pyfloat \<Rightarrow> pyfloat \<Rightarrow> bool" where
  "fl_lt (Fin x) (Fin y) = (x < y)"
| "fl_lt (Fin x) PInf = True"
| "fl_lt NInf (Fin y) = True"
| "fl_lt NInf PInf = True"
| "fl_lt _ _ = False"

fun fl_le :: "pyfloat \<Rightarrow> pyfloat \<Rightarrow> bool" where
  "fl_le (Fin x) (Fin y) = (x \<le> y)"
| "fl_le (Fin x) PInf = True"
| "fl_le NInf (Fin y) = True"
| "fl_le NInf PInf = True"
| "fl_le NInf NInf = True"
| "fl_le PInf PInf = True"
| "fl_le _ _ = False"

fun fl_eq :: "pyfloat \<Rightarrow> pyfloat \<Rightarrow> bool" where
  "fl_eq (Fin x) (Fin y) = (x = y)"
| "fl_eq PInf PInf = True"
| "fl_eq NInf NInf = True"
| "fl_eq _ _ = False"

text \<open>
  Float arithmetic rounds its exact result to a float. Which float a real number is
  rounded to is not fixed here: a rounding is any function with the properties of IEEE
  rounding that this development relies on. It is monotone, takes 0 to 0, gives back
  every finite value that it produces, and never produces NaN. Rounding to the nearest
  binary64 value, with overflow to an infinity, is such a function; so every statement
  below that is made for all roundings holds of Python's floats.
\<close>

definition rounding_laws :: "(real \<Rightarrow> pyfloat) \<Rightarrow> bool" where
  "rounding_laws r \<longleftrightarrow>
     (\<forall>x y. x \<le> y \<longrightarrow> fl_le (r x) (r y)) \<and> r 0 = Fin 0 \<and>
     (\<forall>x y. r x = Fin y \<longrightarrow> r y = Fin y) \<and> (\<forall>x. r x \<noteq> NaN)"

typedef rounding = "{r. rounding_laws r}"
  by (rule exI [of _ Fin]) (simp add: rounding_laws_def)

setup_lifting type_definition_rounding

lift_definition round_to :: "rounding \<Rightarrow> real \<Rightarrow> pyfloat" is "\<lambda>r. r" .

text \<open>
  \<^verbatim>\<open>x + y\<close> on floats (IEEE 754: an infinity absorbs finite values, opposite
  infinities give NaN, NaN spreads).
\<close>

fun fl_add :: "rounding \<Rightarrow> pyfloat \<Rightarrow> pyfloat \<Rightarrow> pyfloat" where
  "fl_add r NaN y = NaN"
| "fl_add r x NaN = NaN"
| "fl_add r (Fin x) (Fin y) = round_to r (x + y)"
| "fl_add r PInf NInf = NaN"
| "fl_add r NInf PInf = NaN"
| "fl_add r PInf y = PInf"
| "fl_add r x PInf = PInf"
| "fl_add r NInf y = NInf"
| "fl_add r x NInf = NInf"

text \<open>
  What \<^verbatim>\<open>json.loads\<close> produces: \<^verbatim>\<open>None\<close>, a bool, an int (unbounded), a float
  (finite, or an infinity for a literal beyond the range such as \<^verbatim>\<open>1e999\<close>, or the
  infinities and NaN that the decoder accepts by name), a string, a list or a dict with
  string keys (an association list, looked up with \<open>map_of\<close>). \<open>JNull\<close> is Python's
  \<^verbatim>\<open>None\<close>, also where an attribute of the connector holds \<^verbatim>\<open>None\<close>.
\<close>

datatype json =
    JNull
  | JBool bool
  | JInt int
  | JFloat pyfloat
  | JStr string
  | JArr "json list"
  | JObj "(string \<times> json) list"

text \<open>The exceptions that leave a method of the connector.\<close>

datatype exn =
  JSONDecodeError | KeyError | TypeError | OverflowError | InvalidVersion | AttributeError

text \<open>A method call ends by returning a value or by raising.\<close>

datatype 'a res = Ret 'a | Exc exn

text \<open>
  Python's \<^verbatim>\<open>==\<close> on such values. A bool is the int 0 or 1; an int and a float are
  equal when they denote the same number; lists are compared element by element, dicts
  key by key whatever the order of the keys (a dict holds each key once). Lists and dicts
  take two elements for equal without asking \<^verbatim>\<open>==\<close> when they are the same object,
  which matters for NaN only: the decoder returns one and the same object for every NaN,
  so inside a list or a dict NaN counts as equal to NaN, while \<^verbatim>\<open>NaN == NaN\<close> itself
  is false.
\<close>

definition bool_int :: "bool \<Rightarrow> int" where
  "bool_int b = (if b then 1 else 0)"

definition same_nan :: "json \<Rightarrow> json \<Rightarrow> bool" where
  "same_nan x y \<longleftrightarrow> x = JFloat NaN \<and> y = JFloat NaN"

fun py_eq :: "json \<Rightarrow> json \<Rightarrow> bool" where
  "py_eq JNull JNull = True"
| "py_eq (JBool a) (JBool b) = (a = b)"
| "py_eq (JBool a) (JInt n) = (bool_int a = n)"
| "py_eq (JInt m) (JBool b) = (m = bool_int b)"
| "py_eq (JBool a) (JFloat y) = fl_eq (Fin (of_int (bool_int a))) y"
| "py_eq (JFloat x) (JBool b) = fl_eq x (Fin (of_int (bool_int b)))"
| "py_eq (JInt m) (JInt n) = (m = n)"
| "py_eq (JInt m) (JFloat y) = fl_eq (Fin (of_int m)) y"
| "py_eq (JFloat x) (JInt n) = fl_eq x (Fin (of_int n))"
| "py_eq (JFloat x) (JFloat y) = fl_eq x y"
| "py_eq (JStr a) (JStr b) = (a = b)"
| "py_eq (JArr []) (JArr []) = True"
| "py_eq (JArr (x # xs)) (JArr (y # ys)) =
     ((same_nan x y \<or> py_eq x y) \<and> py_eq (JArr xs) (JArr ys))"
| "py_eq (JObj kvs) (JObj kws) =
     (list_all (\<lambda>k. k \<in> fst ` set kvs) (map fst kws) \<and>
      list_all (\<lambda>(k, v). case map_of kws k of
                            Some v' \<Rightarrow> same_nan v v' \<or> py_eq v v'
                          | None \<Rightarrow> False) kvs)"
| "py_eq _ _ = False"

text \<open>\<^verbatim>\<open>value[key]\<close> with a string key: only a dict has string keys.\<close>

fun subscript :: "json \<Rightarrow> string \<Rightarrow> exn + json" where
  "subscript (JObj kvs) k = (case map_of kvs k of None \<Rightarrow> Inl KeyError | Some v \<Rightarrow> Inr v)"
| "subscript _ k = Inl TypeError"

text \<open>
  An int taking part in float arithmetic is converted first, which raises
  \<^verbatim>\<open>OverflowError\<close> when it is beyond the range of floats. Then
  \<^verbatim>\<open>start + timeout\<close> where \<^verbatim>\<open>start\<close> is a float: defined when \<^verbatim>\<open>timeout\<close> is a
  float, an int or a bool, a \<^verbatim>\<open>TypeError\<close> otherwise.
\<close>

definition to_float :: "rounding \<Rightarrow> int \<Rightarrow> exn + pyfloat" where
  "to_float r n = (case round_to r (of_int n) of Fin x \<Rightarrow> Inr (Fin x) | _ \<Rightarrow> Inl OverflowError)"

fun float_add :: "rounding \<Rightarrow> pyfloat \<Rightarrow> json \<Rightarrow> exn + pyfloat" where
  "float_add r x (JFloat y) = Inr (fl_add r x y)"
| "float_add r x (JInt n) =
     (case to_float r n of Inl e \<Rightarrow> Inl e | Inr y \<Rightarrow> Inr (fl_add r x y))"
| "float_add r x (JBool b) =
     (case to_float r (bool_int b) of Inl e \<Rightarrow> Inl e | Inr y \<Rightarrow> Inr (fl_add r x y))"
| "float_add r x _ = Inl TypeError"

subsection \<open>The session, the connector object and the world\<close>

text \<open>
  The part of a \<^verbatim>\<open>requests.Session\<close> that the connector writes: the cookie jar and
  the headers sent with every request.
\<close>

record session =
  cookies :: "string \<rightharpoonup> string"
  headers :: "string \<rightharpoonup> json"

text \<open>The attributes that \<^verbatim>\<open>__init__\<close> creates (lines 16 to 36).\<close>

record connector =
  robot_ip :: string
  username :: string
  password :: string
  session :: "session option"
  connected_flag :: bool
  version :: "string option"
  control_token_req :: bool
  control_token :: json
  control_token_id :: json

datatype reqtype = GET | POST | DELETE

text \<open>One call of \<^verbatim>\<open>session.request\<close>: what is asked, and with which session state.\<close>

record request =
  req_type :: reqtype
  req_url :: string
  req_json :: "json option"
  req_session :: session

text \<open>A response: \<^verbatim>\<open>resp.status_code\<close> and \<^verbatim>\<open>resp.text\<close>.\<close>

record response =
  status_code :: int
  resp_text :: string

text \<open>\<^verbatim>\<open>session.request\<close> returns a response or raises (timeout, connection error).\<close>

datatype outcome = Responded response | Raised

text \<open>
  The world outside the connector: \<open>respond w k\<close> is how the \<open>k\<close>-th request of the
  run is answered, \<open>sent\<close> the requests made so far, \<open>clock w k\<close> the time of the
  system clock at the \<open>k\<close>-th call of \<^verbatim>\<open>time.time()\<close> and \<open>reads\<close> the number of such
  calls so far. Both are arbitrary: every behaviour of the server and of the clock is
  some world. \<^verbatim>\<open>time.time()\<close> returns the time of the clock as a float.
\<close>

record world =
  respond :: "nat \<Rightarrow> request \<Rightarrow> outcome"
  sent :: "request list"
  clock :: "nat \<Rightarrow> real"
  reads :: nat

definition time_time :: "rounding \<Rightarrow> world \<Rightarrow> pyfloat \<times> world" where
  "time_time r w = (round_to r (clock w (reads w)), w\<lparr>reads := Suc (reads w)\<rparr>)"

text \<open>
  \<^verbatim>\<open>self.session.request(reqtype, endpoint, json=json, verify=False, timeout=10)\<close>.
  Before \<^verbatim>\<open>connect\<close> the attribute \<^verbatim>\<open>session\<close> is \<^verbatim>\<open>None\<close> and the
  expression raises without any request being made.
\<close>

definition session_request ::
  "connector \<Rightarrow> reqtype \<Rightarrow> string \<Rightarrow> json option \<Rightarrow> world \<Rightarrow> outcome \<times> world" where
  "session_request s reqtype endpoint js w =
     (case session s of
        None \<Rightarrow> (Raised, w)
      | Some ss \<Rightarrow>
          (let req = \<lparr>req_type = reqtype, req_url = endpoint, req_json = js,
                      req_session = ss\<rparr>
           in (respond w (length (sent w)) req, w\<lparr>sent := sent w @ [req]\<rparr>)))"

subsection \<open>The retrying call (lines 171 to 184)\<close>

text \<open>
  The loop of \<^verbatim>\<open>__call\<close> with its counter \<^verbatim>\<open>attempts\<close>. The pair that the method
  returns is \<^verbatim>\<open>(True, resp)\<close> or \<^verbatim>\<open>(False, None)\<close>: \<open>Some resp\<close> and \<open>None\<close>.
  The bare \<^verbatim>\<open>except\<close> makes a raising request count as a failed attempt.
\<close>

function call_loop ::
  "connector \<Rightarrow> string \<Rightarrow> reqtype \<Rightarrow> json option \<Rightarrow> int \<Rightarrow> int \<Rightarrow> world
     \<Rightarrow> response option \<times> world" where
  "call_loop s endpoint reqtype js retries attempts w =
     (if attempts < retries + 1 then
        (case session_request s reqtype endpoint js w of
           (Responded resp, w') \<Rightarrow>
             if status_code resp = 200 then (Some resp, w')
             else call_loop s endpoint reqtype js retries (attempts + 1) w'
         | (Raised, w') \<Rightarrow> call_loop s endpoint reqtype js retries (attempts + 1) w')
      else (None, w))"
  by pat_completeness auto
termination
  by (relation "measure (\<lambda>(s, endpoint, reqtype, js, retries, attempts, w).
                   nat (retries + 1 - attempts))") auto

declare call_loop.simps [simp del]

definition call ::
  "connector \<Rightarrow> string \<Rightarrow> reqtype \<Rightarrow> json option \<Rightarrow> int \<Rightarrow> world \<Rightarrow> response option \<times> world"
  where
  "call s endpoint reqtype js retries w = call_loop s endpoint reqtype js retries 0 w"

text \<open>\<^verbatim>\<open>'https://{}<path>'.format(self.robot_ip)\<close>\<close>

definition url :: "connector \<Rightarrow> string \<Rightarrow> string" where
  "url s path = ''https://'' @ robot_ip s @ path"

subsection \<open>Session management (lines 51 to 75)\<close>

definition login :: "connector \<Rightarrow> int \<Rightarrow> world \<Rightarrow> bool res \<times> connector \<times> world" where
  "login s retries w =
     (case call s (url s ''/admin/api/login'') POST
             (Some (JObj [(''login'', JStr (username s)), (''password'', JStr (password s))]))
             retries w of
        (Some resp, w') \<Rightarrow>
          (case session s of
             None \<Rightarrow> (Exc AttributeError, s, w')
           | Some ss \<Rightarrow>
               (Ret True,
                s\<lparr>session := Some (ss\<lparr>cookies := (cookies ss)(''authorization'' \<mapsto> resp_text resp)\<rparr>),
                  connected_flag := True\<rparr>,
                w'))
      | (None, w') \<Rightarrow> (Ret False, s, w'))"

definition logout :: "connector \<Rightarrow> world \<Rightarrow> bool res \<times> connector \<times> world" where
  "logout s w =
     (case call s (url s ''/admin/api/logout'') POST None 5 w of
        (Some resp, w') \<Rightarrow> (Ret True, s\<lparr>connected_flag := False\<rparr>, w')
      | (None, w') \<Rightarrow> (Ret False, s, w'))"




subsection \<open>Control authority (lines 77 to 149)\<close>

text \<open>
  \<^verbatim>\<open>json.loads\<close> belongs to Python's library: it enters as the parameter \<open>loads\<close>,
  with \<open>None\<close> where it raises. \<^verbatim>\<open>json.loads(text)[key]\<close> is then:
\<close>

definition load_key :: "(string \<Rightarrow> json option) \<Rightarrow> string \<Rightarrow> string \<Rightarrow> exn + json" where
  "load_key loads t k =
     (case loads t of None \<Rightarrow> Inl JSONDecodeError | Some j \<Rightarrow> subscript j k)"

definition is_control_token_active ::
  "(string \<Rightarrow> json option) \<Rightarrow> connector \<Rightarrow> world \<Rightarrow> bool res \<times> connector \<times> world" where
  "is_control_token_active loads s w =
     (case call s (url s ''/admin/api/control-token'') GET None 5 w of
        (None, w') \<Rightarrow> (Ret False, s, w')
      | (Some resp, w') \<Rightarrow>
          (case load_key loads (resp_text resp) ''activeToken'' of
             Inl e \<Rightarrow> (Exc e, s, w')
           | Inr active_token \<Rightarrow>
               if active_token = JNull then (Ret False, s, w')
               else (case subscript active_token ''id'' of
                       Inl e \<Rightarrow> (Exc e, s, w')
                     | Inr i \<Rightarrow> (Ret (py_eq i (control_token_id s)), s, w'))))"

text \<open>
  The three statements that both branches of \<^verbatim>\<open>acquire_control_token\<close> run on the
  response of the token request (lines 95 to 97 and 117 to 119). An exception leaves the
  assignments made before it in place.
\<close>

definition store_control_token ::
  "(string \<Rightarrow> json option) \<Rightarrow> response \<Rightarrow> connector \<Rightarrow> unit res \<times> connector" where
  "store_control_token loads resp s =
     (case load_key loads (resp_text resp) ''token'' of
        Inl e \<Rightarrow> (Exc e, s)
      | Inr tok \<Rightarrow>
          (let s1 = s\<lparr>control_token := tok\<rparr>
           in case load_key loads (resp_text resp) ''id'' of
                Inl e \<Rightarrow> (Exc e, s1)
              | Inr i \<Rightarrow>
                  (let s2 = s1\<lparr>control_token_id := i\<rparr>
                   in case session s2 of
                        None \<Rightarrow> (Exc AttributeError, s2)
                      | Some ss \<Rightarrow>
                          (Ret (),
                           s2\<lparr>session :=
                                Some (ss\<lparr>headers := (headers ss)(''X-Control-Token'' \<mapsto> tok)\<rparr>)\<rparr>))))"

text \<open>
  The loop of lines 104 to 108. Each round reads the clock, adds \<^verbatim>\<open>start + timeout\<close>
  (which may raise) and compares; nothing in the loop itself makes it end, so the function
  is partial: \<open>None\<close> is the run that never leaves the loop.
\<close>

partial_function (option) wait_for_control ::
  "(string \<Rightarrow> json option) \<Rightarrow> rounding \<Rightarrow> pyfloat \<Rightarrow> json \<Rightarrow> connector \<Rightarrow> world
     \<Rightarrow> (bool res \<times> connector \<times> world) option" where
  "wait_for_control loads rnd start timeout s w =
     (case time_time rnd w of
        (now, w1) \<Rightarrow>
          (case float_add rnd start timeout of
             Inl e \<Rightarrow> Some (Exc e, s, w1)
           | Inr deadline \<Rightarrow>
               if fl_lt now deadline then
                 (case is_control_token_active loads s w1 of
                    (Ret b, s2, w2) \<Rightarrow>
                      if b then Some (Ret True, s2, w2)
                      else wait_for_control loads rnd start timeout s2 w2
                  | (Exc e, s2, w2) \<Rightarrow> Some (Exc e, s2, w2))
               else Some (Ret False, s, w1)))"

definition acquire_control_token ::
  "(string \<Rightarrow> json option) \<Rightarrow> rounding \<Rightarrow> bool \<Rightarrow> connector \<Rightarrow> world
     \<Rightarrow> (bool res \<times> connector \<times> world) option" where
  "acquire_control_token loads rnd force s w =
     (if force then
        (case call s (url s ''/admin/api/safety'') GET None 5 w of
           (None, w1) \<Rightarrow> Some (Ret False, s, w1)
         | (Some resp, w1) \<Rightarrow>
             (case load_key loads (resp_text resp) ''tokenForceTimeout'' of
                Inl e \<Rightarrow> Some (Exc e, s, w1)
              | Inr timeout \<Rightarrow>
                  (case call s (url s ''/admin/api/control-token/request?force'') POST
                          (Some (JObj [(''requestedBy'', JStr (username s))])) 5 w1 of
                     (None, w2) \<Rightarrow> Some (Ret False, s, w2)
                   | (Some resp2, w2) \<Rightarrow>
                       (case store_control_token loads resp2 s of
                          (Exc e, s1) \<Rightarrow> Some (Exc e, s1, w2)
                        | (Ret u, s1) \<Rightarrow>
                            (case time_time rnd w2 of
                               (start, w3) \<Rightarrow>
                                 wait_for_control loads rnd start timeout s1 w3)))))
      else
        (case call s (url s ''/admin/api/control-token/request'') POST
                (Some (JObj [(''requestedBy'', JStr (username s))])) 5 w of
           (None, w1) \<Rightarrow> Some (Ret False, s, w1)
         | (Some resp, w1) \<Rightarrow>
             (case store_control_token loads resp s of
                (Exc e, s1) \<Rightarrow> Some (Exc e, s1, w1)
              | (Ret u, s1) \<Rightarrow> Some (is_control_token_active loads s1 w1))))"

definition can_control ::
  "(string \<Rightarrow> json option) \<Rightarrow> connector \<Rightarrow> world \<Rightarrow> bool res \<times> connector \<times> world" where
  "can_control loads s w =
     (if control_token_req s then
        (case is_control_token_active loads s w of
           (Ret b, s1, w1) \<Rightarrow>
             if b then (Ret True, s1, w1)
             else if \<not> control_token_req s1 then (Ret True, s1, w1)
             else (Ret False, s1, w1)
         | (Exc e, s1, w1) \<Rightarrow> (Exc e, s1, w1))
      else (Ret True, s, w))"

text \<open>
  Line 147 is the comparison \<^verbatim>\<open>self.control_token == None\<close>, whose value is dropped:
  the method assigns to no attribute.
\<close>

definition release_control_token :: "connector \<Rightarrow> world \<Rightarrow> bool res \<times> connector \<times> world" where
  "release_control_token s w =
     (case call s (url s ''/admin/api/control-token'') DELETE
             (Some (JObj [(''token'', control_token s)])) 5 w of
        (Some resp, w') \<Rightarrow> (let dropped = py_eq (control_token s) JNull in (Ret True, s, w'))
      | (None, w') \<Rightarrow> (Ret False, s, w'))"

subsection \<open>Arm commands (lines 151 to 169)\<close>

text \<open>Each returns the first component of the pair of \<^verbatim>\<open>__call\<close>.\<close>

definition succeeded :: "connector \<Rightarrow> response option \<times> world \<Rightarrow> bool res \<times> connector \<times> world"
  where
  "succeeded s r = (case r of (Some resp, w') \<Rightarrow> (Ret True, s, w') | (None, w') \<Rightarrow> (Ret False, s, w'))"

definition enable_fci :: "connector \<Rightarrow> world \<Rightarrow> bool res \<times> connector \<times> world" where
  "enable_fci s w =
     succeeded s (call s (url s ''/admin/api/control-token/fci'') POST
                    (Some (JObj [(''token'', control_token s)])) 5 w)"

definition disable_fci :: "connector \<Rightarrow> world \<Rightarrow> bool res \<times> connector \<times> world" where
  "disable_fci s w =
     succeeded s (call s (url s ''/admin/api/control-token/fci'') DELETE
                    (Some (JObj [(''token'', control_token s)])) 5 w)"

text \<open>The parameter \<^verbatim>\<open>retries\<close> of \<^verbatim>\<open>open_brakes\<close> is not passed on.\<close>

definition open_brakes :: "connector \<Rightarrow> int \<Rightarrow> world \<Rightarrow> bool res \<times> connector \<times> world" where
  "open_brakes s retries w =
     succeeded s (call s (url s ''/desk/api/robot/open-brakes'') POST None 5 w)"

definition close_brakes :: "connector \<Rightarrow> world \<Rightarrow> bool res \<times> connector \<times> world" where
  "close_brakes s w =
     succeeded s (call s (url s ''/desk/api/robot/close-brakes'') POST None 5 w)"

definition home_gripper :: "connector \<Rightarrow> world \<Rightarrow> bool res \<times> connector \<times> world" where
  "home_gripper s w =
     succeeded s (call s (url s ''/desk/api/gripper/homing'') POST None 5 w)"

subsection \<open>Vocabulary of the properties\<close>

text \<open>An attempt fails when the request raises or the status is not 200.\<close>

definition failed :: "outcome \<Rightarrow> bool" where
  "failed out = (case out of Raised \<Rightarrow> True | Responded resp \<Rightarrow> status_code resp \<noteq> 200)"

text \<open>The request that \<open>session_request\<close> makes on a connector whose session is \<open>ss\<close>.\<close>

definition request_of :: "session \<Rightarrow> reqtype \<Rightarrow> string \<Rightarrow> json option \<Rightarrow> request" where
  "request_of ss reqtype endpoint js =
     \<lparr>req_type = reqtype, req_url = endpoint, req_json = js, req_session = ss\<rparr>"

text \<open>
  The connector after the three statements of lines 95 to 97 have stored the token
  \<open>tok\<close> with identifier \<open>i\<close> and put it into the headers of the session \<open>ss\<close>.
\<close>

definition token_held :: "connector \<Rightarrow> session \<Rightarrow> json \<Rightarrow> json \<Rightarrow> connector" where
  "token_held s ss tok i =
     s\<lparr>session := Some (ss\<lparr>headers := (headers ss)(''X-Control-Token'' \<mapsto> tok)\<rparr>),
       control_token := tok, control_token_id := i\<rparr>"

text \<open>
  The rounds of the waiting loop, counted from 0 in the world \<open>w\<close> in which the loop
  starts: \<open>poll_time rnd w k\<close> is the reading of the clock that round \<open>k\<close> compares with
  the deadline, \<open>poll_world\<close> the world in which round \<open>k\<close> starts when every round
  before it made its query, and \<open>poll_result\<close> what the query of round \<open>k\<close> returns.
\<close>

definition poll_time :: "rounding \<Rightarrow> world \<Rightarrow> nat \<Rightarrow> pyfloat" where
  "poll_time rnd w k = round_to rnd (clock w (reads w + k))"

fun poll_world :: "(string \<Rightarrow> json option) \<Rightarrow> connector \<Rightarrow> world \<Rightarrow> nat \<Rightarrow> world" where
  "poll_world loads s w 0 = w"
| "poll_world loads s w (Suc k) =
     snd (snd (is_control_token_active loads s ((poll_world loads s w k)\<lparr>reads :=
       Suc (reads (poll_world loads s w k))\<rparr>)))"

definition poll_result ::
  "(string \<Rightarrow> json option) \<Rightarrow> connector \<Rightarrow> world \<Rightarrow> nat \<Rightarrow> bool res" where
  "poll_result loads s w k =
     fst (is_control_token_active loads s ((poll_world loads s w k)\<lparr>reads :=
       Suc (reads (poll_world loads s w k))\<rparr>))"

text \<open>
  What the claims say of \<^verbatim>\<open>tokenForceTimeout\<close>: \<open>num_le0\<close> is Python's
  \<^verbatim>\<open>timeout <= 0\<close> where it is defined, and \<open>overflows\<close> holds of the ints that are
  beyond the range of floats.
\<close>

fun num_le0 :: "json \<Rightarrow> bool" where
  "num_le0 (JInt n) = (n \<le> 0)"
| "num_le0 (JFloat y) = fl_le y (Fin 0)"
| "num_le0 (JBool b) = (\<not> b)"
| "num_le0 _ = False"

fun overflows :: "rounding \<Rightarrow> json \<Rightarrow> bool" where
  "overflows rnd (JInt n) = (to_float rnd n = Inl OverflowError)"
| "overflows rnd (JBool b) = (to_float rnd (bool_int b) = Inl OverflowError)"
| "overflows rnd _ = False"

subsection \<open>A desk to run against\<close>

text \<open>
  Concrete runs: a connector that has a session, worlds that answer the requests of a run
  from a list (and raise once the list is used up) with a clock that advances by ten
  seconds per reading, and a decoder for the bodies these worlds send. The bodies are
  abbreviated to a word each; \<open>desk_loads\<close> gives the value that the JSON text of the
  real desk would decode to. Floats are rounded by \<open>desk_rounding\<close>, which is exact
  below \<open>2 ^ 1024\<close> in absolute value and gives an infinity from there on. It is a
  rounding in the sense above and agrees with binary64 on the numbers of the runs below:
  integers up to 100, which binary64 represents exactly, and \<open>- 2 ^ 1024\<close>, which is
  beyond its range.
\<close>

definition float_bound :: real where
  "float_bound = 2 ^ 1024"

lift_definition desk_rounding :: rounding is
  "\<lambda>x. if float_bound \<le> x then PInf else if x \<le> - float_bound then NInf else Fin x"
  by (auto simp: rounding_laws_def float_bound_def)


definition desk_session :: session where
  "desk_session = \<lparr>cookies = Map.empty, headers = Map.empty\<rparr>"

definition desk_connector :: connector where
  "desk_connector =
     \<lparr>robot_ip = ''192.168.0.1'', username = ''franka'', password = ''hash'',
      session = Some desk_session, connected_flag = True, version = None,
      control_token_req = False, control_token = JNull, control_token_id = JNull\<rparr>"

definition ok :: "string \<Rightarrow> outcome" where
  "ok t = Responded \<lparr>status_code = 200, resp_text = t\<rparr>"

definition refused :: outcome where
  "refused = Responded \<lparr>status_code = 403, resp_text = []\<rparr>"

definition desk_world :: "outcome list \<Rightarrow> world" where
  "desk_world outs =
     \<lparr>respond = (\<lambda>k req. if k < length outs then outs ! k else Raised),
      sent = [], clock = (\<lambda>k. 10 * real k), reads = 0\<rparr>"

definition desk_loads :: "string \<Rightarrow> json option" where
  "desk_loads t =
     (if t = ''timeout 30'' then Some (JObj [(''tokenForceTimeout'', JInt 30)])
      else if t = ''timeout 0'' then Some (JObj [(''tokenForceTimeout'', JInt 0)])
      else if t = ''timeout inf'' then Some (JObj [(''tokenForceTimeout'', JFloat PInf)])
      else if t = ''timeout low'' then Some (JObj [(''tokenForceTimeout'', JInt (- (2 ^ 1024)))])
      else if t = ''token 7'' then Some (JObj [(''token'', JStr ''secret''), (''id'', JInt 7)])
      else if t = ''active 7'' then Some (JObj [(''activeToken'', JObj [(''id'', JInt 7)])])
      else if t = ''active 8'' then Some (JObj [(''activeToken'', JObj [(''id'', JInt 8)])])
      else if t = ''idle'' then Some (JObj [(''activeToken'', JNull)])
      else None)"

text \<open>The connector that holds token 7, and the same on a firmware that needs tokens.\<close>

definition holder :: connector where
  "holder = token_held desk_connector desk_session (JStr ''secret'') (JInt 7)"

definition holder_req :: connector where
  "holder_req = holder\<lparr>control_token_req := True\<rparr>"

text \<open>The connector after a login that was answered with the body \<open>credential\<close>.\<close>

definition logged_in :: connector where
  "logged_in =
     desk_connector\<lparr>session :=
       Some (desk_session\<lparr>cookies := [''authorization'' \<mapsto> ''credential'']\<rparr>)\<rparr>"









text \<open>
  A clock that is set back after its first reading, and a clock that advances at every
  reading and stays below 100: the readings of a wall clock are not bound to grow, nor
  to leave the range of floats. The readings of the second clock are not all binary64
  values; \<open>desk_rounding\<close> leaves them as they are, where binary64 gives a float between
  99 and 100, which is finite as well.
\<close>

definition set_back :: "world \<Rightarrow> world" where
  "set_back w = w\<lparr>clock := (\<lambda>k. if k = 0 then 100 else 50)\<rparr>"

definition slow_clock :: "nat \<Rightarrow> real" where
  "slow_clock k = 100 - 1 / (1 + real k)"

text \<open>A desk that answers the first two requests and then reports no holder for ever.\<close>

definition idle_desk :: world where
  "idle_desk =
     \<lparr>respond = (\<lambda>k req. if k = 0 then ok ''timeout inf''
                         else if k = 1 then ok ''token 7'' else ok ''idle''),
      sent = [], clock = slow_clock, reads = 0\<rparr>"


section \<open>Properties\<close>

subsection \<open>The retrying call\<close>

lemma session_request_Some:
  "session s = Some ss \<Longrightarrow>
   session_request s reqtype endpoint js w =
     (respond w (length (sent w)) (request_of ss reqtype endpoint js),
      w\<lparr>sent := sent w @ [request_of ss reqtype endpoint js]\<rparr>)"
  by (simp add: session_request_def request_of_def Let_def)

lemma call_loop_done:
  "\<not> attempts < retries + 1 \<Longrightarrow> call_loop s endpoint reqtype js retries attempts w = (None, w)"
  by (simp add: call_loop.simps)

lemma call_loop_fail_step:
  assumes "session s = Some ss" "attempts < retries + 1"
    and "failed (respond w (length (sent w)) (request_of ss reqtype endpoint js))"
  shows "call_loop s endpoint reqtype js retries attempts w =
         call_loop s endpoint reqtype js retries (attempts + 1)
           (w\<lparr>sent := sent w @ [request_of ss reqtype endpoint js]\<rparr>)"
  using assms
  by (subst call_loop.simps) (simp add: session_request_Some failed_def split: outcome.splits)

lemma call_loop_ok_step:
  assumes "session s = Some ss" "attempts < retries + 1"
    and "respond w (length (sent w)) (request_of ss reqtype endpoint js) = Responded resp"
    and "status_code resp = 200"
  shows "call_loop s endpoint reqtype js retries attempts w =
         (Some resp, w\<lparr>sent := sent w @ [request_of ss reqtype endpoint js]\<rparr>)"
  using assms
  by (subst call_loop.simps) (simp add: session_request_Some)

lemma call_loop_all_fail:
  assumes "session s = Some ss"
  shows "nat (retries + 1 - attempts) = n \<Longrightarrow>
    \<forall>k<n. failed (respond w (length (sent w) + k) (request_of ss reqtype endpoint js)) \<Longrightarrow>
    call_loop s endpoint reqtype js retries attempts w =
      (None, w\<lparr>sent := sent w @ replicate n (request_of ss reqtype endpoint js)\<rparr>)"
proof (induction n arbitrary: attempts w)
  case 0
  then show ?case by (simp add: call_loop_done)
next
  case (Suc n)
  let ?rq = "request_of ss reqtype endpoint js"
  let ?w = "w\<lparr>sent := sent w @ [?rq]\<rparr>"
  from Suc.prems have lt: "attempts < retries + 1" by simp
  from Suc.prems have f0: "failed (respond w (length (sent w)) ?rq)"
    by (metis add.right_neutral zero_less_Suc)
  have rest: "\<forall>k<n. failed (respond ?w (length (sent ?w) + k) ?rq)"
  proof (intro allI impI)
    fix k assume "k < n"
    then have "Suc k < Suc n" by simp
    with Suc.prems(2) have "failed (respond w (length (sent w) + Suc k) ?rq)" by blast
    then show "failed (respond ?w (length (sent ?w) + k) ?rq)" by simp
  qed
  have "nat (retries + 1 - (attempts + 1)) = n" using Suc.prems(1) by simp
  from Suc.IH [OF this rest]
  show ?case
    by (simp add: call_loop_fail_step [OF assms lt f0] replicate_app_Cons_same)
qed

lemma call_loop_first_ok:
  assumes "session s = Some ss"
  shows "int j < retries + 1 - attempts \<Longrightarrow>
    \<forall>k<j. failed (respond w (length (sent w) + k) (request_of ss reqtype endpoint js)) \<Longrightarrow>
    respond w (length (sent w) + j) (request_of ss reqtype endpoint js) = Responded resp \<Longrightarrow>
    status_code resp = 200 \<Longrightarrow>
    call_loop s endpoint reqtype js retries attempts w =
      (Some resp, w\<lparr>sent := sent w @ replicate (Suc j) (request_of ss reqtype endpoint js)\<rparr>)"
proof (induction j arbitrary: attempts w)
  case 0
  then show ?case by (simp add: call_loop_ok_step [OF assms])
next
  case (Suc j)
  let ?rq = "request_of ss reqtype endpoint js"
  let ?w = "w\<lparr>sent := sent w @ [?rq]\<rparr>"
  from Suc.prems have lt: "attempts < retries + 1" by simp
  from Suc.prems have f0: "failed (respond w (length (sent w)) ?rq)"
    by (metis add.right_neutral zero_less_Suc)
  have rest: "\<forall>k<j. failed (respond ?w (length (sent ?w) + k) ?rq)"
  proof (intro allI impI)
    fix k assume "k < j"
    then have "Suc k < Suc j" by simp
    with Suc.prems(2) have "failed (respond w (length (sent w) + Suc k) ?rq)" by blast
    then show "failed (respond ?w (length (sent ?w) + k) ?rq)" by simp
  qed
  have ok: "respond ?w (length (sent ?w) + j) ?rq = Responded resp"
    using Suc.prems(3) by simp
  have "int j < retries + 1 - (attempts + 1)" using Suc.prems(1) by simp
  from Suc.IH [OF this rest ok Suc.prems(4)]
  show ?case
    by (simp add: call_loop_fail_step [OF assms lt f0] replicate_app_Cons_same)
qed

lemma call_no_session:
  "session s = None \<Longrightarrow> call_loop s endpoint reqtype js retries attempts w = (None, w)"
proof (induction s endpoint reqtype js retries attempts w rule: call_loop.induct)
  case (1 s endpoint reqtype js retries attempts w)
  then show ?case
    by (subst call_loop.simps) (simp add: session_request_def)
qed


lemma call_loop_world:
  "clock (snd (call_loop s endpoint reqtype js retries attempts w)) = clock w \<and>
   reads (snd (call_loop s endpoint reqtype js retries attempts w)) = reads w \<and>
   respond (snd (call_loop s endpoint reqtype js retries attempts w)) = respond w"
proof (induction s endpoint reqtype js retries attempts w rule: call_loop.induct)
  case (1 s endpoint reqtype js retries attempts w)
  show ?case
  proof (cases "attempts < retries + 1")
    case False
    then show ?thesis by (simp add: call_loop_done)
  next
    case True
    show ?thesis
    proof (cases "session s")
      case None
      then show ?thesis by (simp add: call_no_session)
    next
      case (Some ss)
      let ?rq = "request_of ss reqtype endpoint js"
      let ?w = "w\<lparr>sent := sent w @ [?rq]\<rparr>"
      have sr: "session_request s reqtype endpoint js w = (respond w (length (sent w)) ?rq, ?w)"
        by (rule session_request_Some [OF Some])
      show ?thesis
      proof (cases "respond w (length (sent w)) ?rq")
        case Raised
        with 1(2) [OF True sr [symmetric]] True sr show ?thesis
          by (subst (1 2 3) call_loop.simps) simp
      next
        case (Responded resp)
        show ?thesis
        proof (cases "status_code resp = 200")
          case ok: True
          with True sr Responded show ?thesis
            by (subst (1 2 3) call_loop.simps) simp
        next
          case bad: False
          with 1(1) [OF True sr [symmetric] _ bad] Responded True sr show ?thesis
            by (subst (1 2 3) call_loop.simps) simp
        qed
      qed
    qed
  qed
qed

lemma call_Some_session:
  "call s endpoint reqtype js retries w = (Some resp, w') \<Longrightarrow> session s \<noteq> None"
  by (cases "session s") (simp_all add: call_def call_no_session)

text \<open>
  Claim C3. With \<^verbatim>\<open>retries\<close> \<open>= n \<ge> 0\<close> on a connector that has a session: when each
  of the next \<open>n + 1\<close> requests fails (it raises, or its status is not 200) the call
  returns failure after exactly \<open>n + 1\<close> requests, all of them the same request; and
  when the first \<open>j \<le> n\<close> requests fail and the next one is answered with status 200,
  the call returns that response after exactly \<open>j + 1\<close> requests.
\<close>

theorem call_attempts:
  assumes "session s = Some ss" and "0 \<le> n"
  shows "((\<forall>k<nat (n + 1). failed (respond w (length (sent w) + k) (request_of ss reqtype endpoint js))) \<longrightarrow>
          call s endpoint reqtype js n w =
            (None, w\<lparr>sent := sent w @ replicate (nat (n + 1)) (request_of ss reqtype endpoint js)\<rparr>)) \<and>
         (\<forall>j resp. int j \<le> n \<and>
            (\<forall>k<j. failed (respond w (length (sent w) + k) (request_of ss reqtype endpoint js))) \<and>
            respond w (length (sent w) + j) (request_of ss reqtype endpoint js) = Responded resp \<and>
            status_code resp = 200 \<longrightarrow>
          call s endpoint reqtype js n w =
            (Some resp, w\<lparr>sent := sent w @ replicate (Suc j) (request_of ss reqtype endpoint js)\<rparr>))"
proof (intro conjI impI allI)
  assume "\<forall>k<nat (n + 1). failed (respond w (length (sent w) + k) (request_of ss reqtype endpoint js))"
  then show "call s endpoint reqtype js n w =
      (None, w\<lparr>sent := sent w @ replicate (nat (n + 1)) (request_of ss reqtype endpoint js)\<rparr>)"
    unfolding call_def
    by (intro call_loop_all_fail [OF assms(1)]) simp_all
next
  fix j resp
  assume a: "int j \<le> n \<and>
      (\<forall>k<j. failed (respond w (length (sent w) + k) (request_of ss reqtype endpoint js))) \<and>
      respond w (length (sent w) + j) (request_of ss reqtype endpoint js) = Responded resp \<and>
      status_code resp = 200"
  then have "int j < n + 1 - 0" by simp
  with a show "call s endpoint reqtype js n w =
      (Some resp, w\<lparr>sent := sent w @ replicate (Suc j) (request_of ss reqtype endpoint js)\<rparr>)"
    unfolding call_def
    by (intro call_loop_first_ok [OF assms(1)]) simp_all
qed

lemmas desk_defs = desk_world_def desk_connector_def desk_session_def ok_def refused_def
  request_of_def failed_def

theorem call_attempts_witness:
  "length (sent (snd (call desk_connector ''u'' GET None 2 (desk_world [refused, Raised, refused])))) = 3 \<and>
   fst (call desk_connector ''u'' GET None 2 (desk_world [refused, Raised, refused])) = None \<and>
   length (sent (snd (call desk_connector ''u'' GET None 2 (desk_world [refused, ok ''x''])))) = 2 \<and>
   fst (call desk_connector ''u'' GET None 2 (desk_world [refused, ok ''x''])) =
     Some \<lparr>status_code = 200, resp_text = ''x''\<rparr>"
proof -
  have s: "session desk_connector = Some desk_session" by (simp add: desk_connector_def)
  have n: "(0::int) \<le> 2" by simp
  note t1 = call_attempts [OF s n, of "desk_world [refused, Raised, refused]" GET "''u''" None]
  note t2 = call_attempts [OF s n, of "desk_world [refused, ok ''x'']" GET "''u''" None]
  have f: "\<forall>k<nat (2 + 1). failed (respond (desk_world [refused, Raised, refused])
      (length (sent (desk_world [refused, Raised, refused])) + k) (request_of desk_session GET ''u'' None))"
    by (simp add: desk_defs less_Suc_eq nat_add_distrib numeral_3_eq_3 nth_Cons')
  have g: "int (Suc 0) \<le> 2 \<and>
      (\<forall>k<Suc 0. failed (respond (desk_world [refused, ok ''x''])
         (length (sent (desk_world [refused, ok ''x''])) + k) (request_of desk_session GET ''u'' None))) \<and>
      respond (desk_world [refused, ok ''x'']) (length (sent (desk_world [refused, ok ''x''])) + Suc 0)
         (request_of desk_session GET ''u'' None) = Responded \<lparr>status_code = 200, resp_text = ''x''\<rparr> \<and>
      status_code \<lparr>status_code = 200, resp_text = ''x''\<rparr> = 200"
    by (simp add: desk_defs)
  have r1: "call desk_connector ''u'' GET None 2 (desk_world [refused, Raised, refused]) =
      (None, desk_world [refused, Raised, refused]
         \<lparr>sent := sent (desk_world [refused, Raised, refused]) @
            replicate (nat (2 + 1)) (request_of desk_session GET ''u'' None)\<rparr>)"
    using t1 f by blast
  have r2: "call desk_connector ''u'' GET None 2 (desk_world [refused, ok ''x'']) =
      (Some \<lparr>status_code = 200, resp_text = ''x''\<rparr>, desk_world [refused, ok ''x'']
         \<lparr>sent := sent (desk_world [refused, ok ''x'']) @
            replicate (Suc (Suc 0)) (request_of desk_session GET ''u'' None)\<rparr>)"
    using t2 g by blast
  show ?thesis
    unfolding r1 r2 by (simp add: desk_world_def)
qed

subsection \<open>Release, logout, activity check and version\<close>

lemma call_world:
  "clock (snd (call s endpoint reqtype js retries w)) = clock w \<and>
   reads (snd (call s endpoint reqtype js retries w)) = reads w \<and>
   respond (snd (call s endpoint reqtype js retries w)) = respond w"
  unfolding call_def by (rule call_loop_world)

lemma is_active_connector: "fst (snd (is_control_token_active loads s w)) = s"
  by (simp add: is_control_token_active_def split: prod.splits option.splits sum.splits)

lemma is_active_world:
  "clock (snd (snd (is_control_token_active loads s w))) = clock w \<and>
   reads (snd (snd (is_control_token_active loads s w))) = reads w \<and>
   respond (snd (snd (is_control_token_active loads s w))) = respond w"
proof -
  obtain r w' where c: "call s (url s ''/admin/api/control-token'') GET None 5 w = (r, w')"
    by (cases "call s (url s ''/admin/api/control-token'') GET None 5 w")
  have "snd (snd (is_control_token_active loads s w)) = w'"
    by (simp add: is_control_token_active_def c split: option.splits sum.splits)
  moreover from call_world [of s "url s ''/admin/api/control-token''" GET None 5 w] c
  have "clock w' = clock w \<and> reads w' = reads w \<and> respond w' = respond w" by simp
  ultimately show ?thesis by simp
qed

lemmas run_defs = call_def call_loop.simps session_request_def url_def Let_def
  desk_world_def desk_connector_def desk_session_def ok_def refused_def

text \<open>
  Claim C1 says that a successful release clears the stored token value and identifier.
  The code does not: on the connector that holds the token \<open>secret\<close> with identifier 7,
  with a desk that answers the DELETE request with status 200, the method returns
  \<^verbatim>\<open>True\<close> and both attributes are what they were. Line 147 compares where it was
  meant to assign.
\<close>

theorem release_keeps_token:
  "fst (release_control_token holder (desk_world [ok []])) = Ret True \<and>
   control_token holder = JStr ''secret'' \<and>
   control_token (fst (snd (release_control_token holder (desk_world [ok []])))) = JStr ''secret'' \<and>
   control_token_id (fst (snd (release_control_token holder (desk_world [ok []])))) = JInt 7"
  by (simp add: release_control_token_def holder_def token_held_def run_defs)

text \<open>
  Claim C7. When the logout request succeeds, \<^verbatim>\<open>logout\<close> returns \<^verbatim>\<open>True\<close> and the
  connector differs from the one before only in the flag \<^verbatim>\<open>connected\<close>, now
  \<^verbatim>\<open>False\<close>: the session, and so its authorization cookie, is the same.
\<close>

theorem logout_clears_flag_only:
  assumes "call s (url s ''/admin/api/logout'') POST None 5 w = (Some resp, w')"
  shows "logout s w = (Ret True, s\<lparr>connected_flag := False\<rparr>, w') \<and>
         session (fst (snd (logout s w))) = session s"
  using assms by (simp add: logout_def)

theorem logout_clears_flag_only_witness:
  "fst (logout logged_in (desk_world [ok []])) = Ret True \<and>
   fst (snd (logout logged_in (desk_world [ok []]))) = logged_in\<lparr>connected_flag := False\<rparr> \<and>
   session (fst (snd (logout logged_in (desk_world [ok []])))) =
     Some (desk_session\<lparr>cookies := [''authorization'' \<mapsto> ''credential'']\<rparr>)"
proof -
  have c: "call logged_in (url logged_in ''/admin/api/logout'') POST None 5 (desk_world [ok []]) =
      (Some \<lparr>status_code = 200, resp_text = []\<rparr>,
       snd (call logged_in (url logged_in ''/admin/api/logout'') POST None 5 (desk_world [ok []])))"
    by (simp add: logged_in_def run_defs)
  from logout_clears_flag_only [OF c] show ?thesis
    by (simp add: logged_in_def desk_connector_def)
qed

text \<open>
  Claim C6. When the query of the active token succeeds and its body decodes to a dict
  with the key \<^verbatim>\<open>activeToken\<close>: if that value is \<^verbatim>\<open>None\<close> the method returns
  \<^verbatim>\<open>False\<close>; otherwise, with \<open>i\<close> the holder's \<^verbatim>\<open>id\<close>, it returns whether \<open>i\<close>
  equals (Python's \<^verbatim>\<open>==\<close>) the stored token identifier. Connector unchanged.
\<close>

theorem is_control_token_active_result:
  assumes "call s (url s ''/admin/api/control-token'') GET None 5 w = (Some resp, w')"
    and "load_key loads (resp_text resp) ''activeToken'' = Inr a"
    and "a = JNull \<or> subscript a ''id'' = Inr i"
  shows "is_control_token_active loads s w =
           (Ret (a \<noteq> JNull \<and> py_eq i (control_token_id s)), s, w')"
  using assms by (auto simp: is_control_token_active_def)


lemmas body_defs = load_key_def desk_loads_def

theorem is_control_token_active_result_witness:
  "fst (is_control_token_active desk_loads holder (desk_world [ok ''idle''])) = Ret False \<and>
   fst (is_control_token_active desk_loads holder (desk_world [ok ''active 7''])) = Ret True \<and>
   fst (is_control_token_active desk_loads holder (desk_world [ok ''active 8''])) = Ret False"
proof -
  let ?u = "url holder ''/admin/api/control-token''"
  have c: "\<And>t. call holder ?u GET None 5 (desk_world [ok t]) =
      (Some \<lparr>status_code = 200, resp_text = t\<rparr>, snd (call holder ?u GET None 5 (desk_world [ok t])))"
    by (simp add: holder_def token_held_def run_defs)
  have l0: "load_key desk_loads (resp_text \<lparr>status_code = 200, resp_text = ''idle''\<rparr>) ''activeToken'' = Inr JNull"
    by (simp add: body_defs)
  have l7: "load_key desk_loads (resp_text \<lparr>status_code = 200, resp_text = ''active 7''\<rparr>) ''activeToken'' =
      Inr (JObj [(''id'', JInt 7)])"
    by (simp add: body_defs)
  have l8: "load_key desk_loads (resp_text \<lparr>status_code = 200, resp_text = ''active 8''\<rparr>) ''activeToken'' =
      Inr (JObj [(''id'', JInt 8)])"
    by (simp add: body_defs)
  have i0: "JNull = JNull \<or> subscript JNull ''id'' = Inr JNull" by simp
  have i7: "JObj [(''id'', JInt 7)] = JNull \<or> subscript (JObj [(''id'', JInt 7)]) ''id'' = Inr (JInt 7)"
    by simp
  have i8: "JObj [(''id'', JInt 8)] = JNull \<or> subscript (JObj [(''id'', JInt 8)]) ''id'' = Inr (JInt 8)"
    by simp
  note r0 = is_control_token_active_result [OF c l0 i0]
  note r7 = is_control_token_active_result [OF c l7 i7]
  note r8 = is_control_token_active_result [OF c l8 i8]
  show ?thesis
    unfolding r0 r7 r8 by (simp add: holder_def token_held_def)
qed







subsection \<open>Acquiring the token\<close>

lemma store_control_token_ok:
  assumes "session s = Some ss"
    and "load_key loads (resp_text resp) ''token'' = Inr tok"
    and "load_key loads (resp_text resp) ''id'' = Inr i"
  shows "store_control_token loads resp s = (Ret (), token_held s ss tok i)"
  using assms by (simp add: store_control_token_def token_held_def Let_def)

text \<open>
  Claim C10. When the token request fails after its retries, \<^verbatim>\<open>acquire_control_token\<close>
  returns \<^verbatim>\<open>False\<close> with the connector (token value, identifier, session headers and
  all) as it was before the call: in the standard branch, and in the forced branch after
  a safety query that succeeded and gave a timeout.
\<close>

theorem acquire_request_failure:
  "(call s (url s ''/admin/api/control-token/request'') POST
       (Some (JObj [(''requestedBy'', JStr (username s))])) 5 w = (None, w1) \<longrightarrow>
    acquire_control_token loads rnd False s w = Some (Ret False, s, w1)) \<and>
   (call s (url s ''/admin/api/safety'') GET None 5 w = (Some resp, w1) \<and>
    load_key loads (resp_text resp) ''tokenForceTimeout'' = Inr timeout \<and>
    call s (url s ''/admin/api/control-token/request?force'') POST
       (Some (JObj [(''requestedBy'', JStr (username s))])) 5 w1 = (None, w2) \<longrightarrow>
    acquire_control_token loads rnd True s w = Some (Ret False, s, w2))"
  by (simp add: acquire_control_token_def)

theorem acquire_request_failure_witness:
  "(\<exists>w'. acquire_control_token desk_loads desk_rounding False holder (desk_world []) = Some (Ret False, holder, w')) \<and>
   (\<exists>w'. acquire_control_token desk_loads desk_rounding True holder (desk_world [ok ''timeout 30'']) =
      Some (Ret False, holder, w'))"
proof -
  let ?js = "Some (JObj [(''requestedBy'', JStr (username holder))])"
  obtain w1 where c1: "call holder (url holder ''/admin/api/control-token/request'') POST ?js 5
      (desk_world []) = (None, w1)"
    by (simp add: holder_def token_held_def run_defs)
  obtain w2 where c2: "call holder (url holder ''/admin/api/safety'') GET None 5
      (desk_world [ok ''timeout 30'']) = (Some \<lparr>status_code = 200, resp_text = ''timeout 30''\<rparr>, w2)"
    and c3: "call holder (url holder ''/admin/api/control-token/request?force'') POST ?js 5 w2 =
      (None, snd (call holder (url holder ''/admin/api/control-token/request?force'') POST ?js 5 w2))"
    by (simp add: holder_def token_held_def run_defs)
  have l: "load_key desk_loads (resp_text \<lparr>status_code = 200, resp_text = ''timeout 30''\<rparr>)
      ''tokenForceTimeout'' = Inr (JInt 30)"
    by (simp add: load_key_def desk_loads_def)
  from acquire_request_failure [where s = holder and w = "desk_world []" and ?w1.0 = w1
      and loads = desk_loads] c1
  have "acquire_control_token desk_loads desk_rounding False holder (desk_world []) = Some (Ret False, holder, w1)"
    by blast
  moreover from acquire_request_failure [where s = holder and w = "desk_world [ok ''timeout 30'']"
      and ?w1.0 = w2 and loads = desk_loads
      and resp = "\<lparr>status_code = 200, resp_text = ''timeout 30''\<rparr>" and timeout = "JInt 30"
      and ?w2.0 = "snd (call holder (url holder ''/admin/api/control-token/request?force'') POST
        (Some (JObj [(''requestedBy'', JStr (username holder))])) 5 w2)"] c2 c3 l
  have "acquire_control_token desk_loads desk_rounding True holder (desk_world [ok ''timeout 30'']) =
      Some (Ret False, holder,
        snd (call holder (url holder ''/admin/api/control-token/request?force'') POST ?js 5 w2))"
    by blast
  ultimately show ?thesis by blast
qed

text \<open>
  Claim C5. In the standard branch, when the token request succeeds and its body gives
  the token \<open>tok\<close> and identifier \<open>i\<close>, the method stores both, puts the token into the
  session headers, and returns what one call of \<^verbatim>\<open>is_control_token_active\<close> returns in
  that state, without reading the clock. In particular, when that query reports a holder
  whose identifier is not \<open>i\<close>, the result is \<^verbatim>\<open>False\<close> and the token, identifier and
  header stay in place.
\<close>

theorem acquire_standard:
  assumes "session s = Some ss"
    and "call s (url s ''/admin/api/control-token/request'') POST
           (Some (JObj [(''requestedBy'', JStr (username s))])) 5 w = (Some resp, w1)"
    and "load_key loads (resp_text resp) ''token'' = Inr tok"
    and "load_key loads (resp_text resp) ''id'' = Inr i"
  shows "acquire_control_token loads rnd False s w =
           Some (fst (is_control_token_active loads (token_held s ss tok i) w1),
                 token_held s ss tok i,
                 snd (snd (is_control_token_active loads (token_held s ss tok i) w1))) \<and>
         reads (snd (snd (is_control_token_active loads (token_held s ss tok i) w1))) = reads w \<and>
         (\<forall>resp2 w2 a h.
            call (token_held s ss tok i) (url (token_held s ss tok i) ''/admin/api/control-token'')
              GET None 5 w1 = (Some resp2, w2) \<and>
            load_key loads (resp_text resp2) ''activeToken'' = Inr a \<and> a \<noteq> JNull \<and>
            subscript a ''id'' = Inr h \<and> \<not> py_eq h i \<longrightarrow>
            acquire_control_token loads rnd False s w = Some (Ret False, token_held s ss tok i, w2))"
proof -
  let ?s = "token_held s ss tok i"
  have a: "acquire_control_token loads rnd False s w = Some (is_control_token_active loads ?s w1)"
    by (simp add: acquire_control_token_def assms(2) store_control_token_ok [OF assms(1,3,4)])
  have b: "is_control_token_active loads ?s w1 =
      (fst (is_control_token_active loads ?s w1), ?s, snd (snd (is_control_token_active loads ?s w1)))"
    using is_active_connector [of loads ?s w1]
    by (cases "is_control_token_active loads ?s w1") simp
  have r: "reads w1 = reads w"
    using call_world [of s "url s ''/admin/api/control-token/request''" POST
        "Some (JObj [(''requestedBy'', JStr (username s))])" 5 w] assms(2) by simp
  have c: "reads (snd (snd (is_control_token_active loads ?s w1))) = reads w"
    using is_active_world [of loads ?s w1] r by simp
  have d: "\<forall>resp2 w2 a h.
      call ?s (url ?s ''/admin/api/control-token'') GET None 5 w1 = (Some resp2, w2) \<and>
      load_key loads (resp_text resp2) ''activeToken'' = Inr a \<and> a \<noteq> JNull \<and>
      subscript a ''id'' = Inr h \<and> \<not> py_eq h i \<longrightarrow>
      acquire_control_token loads rnd False s w = Some (Ret False, ?s, w2)"
    by (auto simp: a is_control_token_active_def token_held_def)
  from a b c d show ?thesis by metis
qed

theorem acquire_standard_witness:
  "\<exists>w'. acquire_control_token desk_loads desk_rounding False desk_connector
      (desk_world [ok ''token 7'', ok ''active 8'']) = Some (Ret False, holder, w') \<and>
     control_token holder = JStr ''secret'' \<and> control_token_id holder = JInt 7 \<and>
     map_option (\<lambda>ss. headers ss ''X-Control-Token'') (session holder) = Some (Some (JStr ''secret''))"
proof -
  let ?js = "Some (JObj [(''requestedBy'', JStr (username desk_connector))])"
  let ?w = "desk_world [ok ''token 7'', ok ''active 8'']"
  have s: "session desk_connector = Some desk_session" by (simp add: desk_connector_def)
  obtain w1 where c1: "call desk_connector (url desk_connector ''/admin/api/control-token/request'')
      POST ?js 5 ?w = (Some \<lparr>status_code = 200, resp_text = ''token 7''\<rparr>, w1)"
    and c2: "call holder (url holder ''/admin/api/control-token'') GET None 5 w1 =
      (Some \<lparr>status_code = 200, resp_text = ''active 8''\<rparr>,
       snd (call holder (url holder ''/admin/api/control-token'') GET None 5 w1))"
    by (simp add: holder_def token_held_def run_defs)
  have lt: "load_key desk_loads (resp_text \<lparr>status_code = 200, resp_text = ''token 7''\<rparr>) ''token'' =
      Inr (JStr ''secret'')"
    and li: "load_key desk_loads (resp_text \<lparr>status_code = 200, resp_text = ''token 7''\<rparr>) ''id'' =
      Inr (JInt 7)"
    and la: "load_key desk_loads (resp_text \<lparr>status_code = 200, resp_text = ''active 8''\<rparr>)
      ''activeToken'' = Inr (JObj [(''id'', JInt 8)])"
    by (simp_all add: load_key_def desk_loads_def)
  have o: "JObj [(''id'', JInt 8)] \<noteq> JNull \<and> subscript (JObj [(''id'', JInt 8)]) ''id'' = Inr (JInt 8) \<and>
      \<not> py_eq (JInt 8) (JInt 7)"
    by simp
  from acquire_standard [OF s c1 lt li] c2 la o
  have "acquire_control_token desk_loads desk_rounding False desk_connector ?w =
      Some (Ret False, holder, snd (call holder (url holder ''/admin/api/control-token'') GET None 5 w1))"
    unfolding holder_def [symmetric] by blast
  then show ?thesis
    by (simp add: holder_def token_held_def desk_connector_def)
qed


subsection \<open>The forced branch and its waiting loop\<close>

lemma is_active_triple:
  "is_control_token_active loads s w =
     (fst (is_control_token_active loads s w), s, snd (snd (is_control_token_active loads s w)))"
  using is_active_connector [of loads s w]
  by (cases "is_control_token_active loads s w") simp


lemma wait_connector:
  assumes "wait_for_control loads rnd start timeout s w = Some y"
  shows "fst (snd y) = s"
proof (rule wait_for_control.raw_induct
    [where P = "\<lambda>loads rnd start timeout s w y. fst (snd y) = s", OF _ assms])
  fix f :: "(string \<Rightarrow> json option) \<Rightarrow> rounding \<Rightarrow> pyfloat \<Rightarrow> json \<Rightarrow> connector \<Rightarrow> world
      \<Rightarrow> (bool res \<times> connector \<times> world) option"
    and loads rnd start timeout s w y
  assume IH: "\<And>l r st t c v z. f l r st t c v = Some z \<Longrightarrow> fst (snd z) = c"
  assume body: "(case time_time rnd w of
      (now, w1) \<Rightarrow>
        case float_add rnd start timeout of Inl e \<Rightarrow> Some (Exc e, s, w1)
        | Inr deadline \<Rightarrow>
            if fl_lt now deadline
            then case is_control_token_active loads s w1 of
                 (Ret b, s2, w2) \<Rightarrow>
                   if b then Some (Ret True, s2, w2)
                   else f loads rnd start timeout s2 w2
                 | (Exc e, s2, w2) \<Rightarrow> Some (Exc e, s2, w2)
            else Some (Ret False, s, w1)) = Some y"
  obtain now w1 where t: "time_time rnd w = (now, w1)" by (cases "time_time rnd w")
  obtain r w2 where a: "is_control_token_active loads s w1 = (r, s, w2)"
    using is_active_triple by blast
  show "fst (snd y) = s"
  proof (cases "float_add rnd start timeout")
    case (Inl e)
    with body t show ?thesis by auto
  next
    case (Inr deadline)
    show ?thesis
    proof (cases "fl_lt now deadline")
      case False
      with body t Inr show ?thesis by auto
    next
      case True
      note before = True
      show ?thesis
      proof (cases r)
        case (Exc e)
        from body have "Some (Exc e, s, w2) = Some y"
          by (simp add: t Inr before a Exc)
        then show ?thesis by auto
      next
        case (Ret b)
        show ?thesis
        proof (cases b)
          case True
          from body have "Some (Ret True, s, w2) = Some y"
            by (simp add: t Inr before a Ret True)
          then show ?thesis by auto
        next
          case False
          from body have "f loads rnd start timeout s w2 = Some y"
            by (simp add: t Inr before a Ret False)
          then show ?thesis by (rule IH)
        qed
      qed
    qed
  qed
qed


subsection \<open>Floats\<close>

lemma round_mono: "x \<le> y \<Longrightarrow> fl_le (round_to r x) (round_to r y)"
  by transfer (simp add: rounding_laws_def)

lemma round_zero: "round_to r 0 = Fin 0"
  by transfer (simp add: rounding_laws_def)

lemma round_fix: "round_to r x = Fin y \<Longrightarrow> round_to r y = Fin y"
  by transfer (simp add: rounding_laws_def)

lemma round_not_nan: "round_to r x \<noteq> NaN"
  by transfer (simp add: rounding_laws_def)

lemma fl_le_trans: "fl_le a b \<Longrightarrow> fl_le b c \<Longrightarrow> fl_le a c"
  by (cases a; cases b; cases c) simp_all

lemma fl_le_not_lt: "fl_le d n \<Longrightarrow> \<not> fl_lt n d"
  by (cases d; cases n) simp_all

lemma float_bound_pos: "1000 < float_bound"
proof -
  have "(1000::real) < 2 ^ 10" by simp
  also have "(2::real) ^ 10 \<le> 2 ^ 1024" by (rule power_increasing) simp_all
  finally show ?thesis by (simp add: float_bound_def)
qed

lemma desk_round: "\<bar>x\<bar> \<le> 1000 \<Longrightarrow> round_to desk_rounding x = Fin x"
  using float_bound_pos by transfer auto

lemma desk_round_low: "round_to desk_rounding (- float_bound) = NInf"
  using float_bound_pos by transfer auto

text \<open>
  A timeout that is at most 0: the sum \<^verbatim>\<open>start + timeout\<close> is a float unless the
  timeout overflows, and no later reading of a clock that has not been set back is
  before it.
\<close>

lemma le0_value:
  assumes "num_le0 t" and "float_add r x t = Inr d"
  shows "\<exists>y. fl_le y (Fin 0) \<and> d = fl_add r x y"
proof (cases t)
  case (JFloat y)
  with assms show ?thesis by auto
next
  case (JInt n)
  with assms obtain z where z: "round_to r (of_int n) = Fin z" and d: "d = fl_add r x (Fin z)"
    by (auto simp: to_float_def split: pyfloat.splits)
  from JInt assms(1) have "(of_int n :: real) \<le> 0" by simp
  from round_mono [OF this, of r] z have "fl_le (Fin z) (Fin 0)" by (simp add: round_zero)
  with d show ?thesis by blast
next
  case (JBool b)
  with assms have "d = fl_add r x (Fin 0)"
    by (auto simp: to_float_def bool_int_def round_zero)
  then show ?thesis by (intro exI [of _ "Fin 0"]) simp
qed (use assms in simp_all)

lemma le0_defined:
  assumes "num_le0 t" and "\<not> overflows r t"
  shows "\<exists>d. float_add r x t = Inr d"
  using assms by (cases t) (auto simp: to_float_def split: pyfloat.splits)

lemma deadline_passed:
  assumes "c0 \<le> c1" and "fl_le y (Fin 0)"
  shows "\<not> fl_lt (round_to r c1) (fl_add r (round_to r c0) y)"
proof (cases "round_to r c0")
  case NaN
  then show ?thesis by (simp add: round_not_nan)
next
  case NInf
  with assms(2) show ?thesis by (cases y; cases "round_to r c1") simp_all
next
  case PInf
  from round_mono [OF assms(1), of r] PInf have "round_to r c1 = PInf"
    by (cases "round_to r c1") simp_all
  with PInf assms(2) show ?thesis by (cases y) simp_all
next
  case (Fin a)
  show ?thesis
  proof (cases y)
    case (Fin v)
    with assms(2) have "a + v \<le> a" by simp
    from round_mono [OF this, of r] round_fix [OF \<open>round_to r c0 = Fin a\<close>]
    have "fl_le (round_to r (a + v)) (Fin a)" by simp
    moreover from round_mono [OF assms(1), of r] \<open>round_to r c0 = Fin a\<close>
    have "fl_le (Fin a) (round_to r c1)" by simp
    ultimately have "fl_le (round_to r (a + v)) (round_to r c1)" by (rule fl_le_trans)
    then have "\<not> fl_lt (round_to r c1) (round_to r (a + v))" by (rule fl_le_not_lt)
    with Fin \<open>round_to r c0 = Fin a\<close> show ?thesis by simp
  next
    case NInf
    with \<open>round_to r c0 = Fin a\<close> show ?thesis by (cases "round_to r c1") simp_all
  qed (use assms(2) in simp_all)
qed


subsection \<open>The rounds of the waiting loop\<close>

lemma poll_world_clock:
  "clock (poll_world loads s w k) = clock w \<and> reads (poll_world loads s w k) = reads w + k \<and>
   respond (poll_world loads s w k) = respond w"
proof (induction k)
  case 0
  show ?case by simp
next
  case (Suc k)
  with is_active_world [of loads s "(poll_world loads s w k)\<lparr>reads :=
      Suc (reads (poll_world loads s w k))\<rparr>"]
  show ?case by simp
qed

lemma poll_time_world:
  "round_to rnd (clock (poll_world loads s w k) (reads (poll_world loads s w k))) =
     poll_time rnd w k"
  by (simp add: poll_world_clock poll_time_def)

lemma wait_round_stop:
  assumes "float_add rnd start timeout = Inr d"
    and "\<not> fl_lt (round_to rnd (clock w (reads w))) d"
  shows "wait_for_control loads rnd start timeout s w =
           Some (Ret False, s, w\<lparr>reads := Suc (reads w)\<rparr>)"
  using assms by (subst wait_for_control.simps) (simp add: time_time_def)

lemma wait_round_raise:
  assumes "float_add rnd start timeout = Inl e"
  shows "wait_for_control loads rnd start timeout s w =
           Some (Exc e, s, w\<lparr>reads := Suc (reads w)\<rparr>)"
  using assms by (subst wait_for_control.simps) (simp add: time_time_def)

lemma wait_round_go:
  assumes "float_add rnd start timeout = Inr d"
    and "fl_lt (round_to rnd (clock w (reads w))) d"
  shows "wait_for_control loads rnd start timeout s w =
           (if fst (is_control_token_active loads s (w\<lparr>reads := Suc (reads w)\<rparr>)) = Ret False
            then wait_for_control loads rnd start timeout s
                   (snd (snd (is_control_token_active loads s (w\<lparr>reads := Suc (reads w)\<rparr>))))
            else Some (fst (is_control_token_active loads s (w\<lparr>reads := Suc (reads w)\<rparr>)), s,
                       snd (snd (is_control_token_active loads s (w\<lparr>reads := Suc (reads w)\<rparr>)))))"
proof -
  obtain r w2 where a: "is_control_token_active loads s (w\<lparr>reads := Suc (reads w)\<rparr>) = (r, s, w2)"
    using is_active_triple by blast
  show ?thesis
  proof (cases r)
    case (Exc e)
    with assms a show ?thesis
      by (subst wait_for_control.simps) (simp add: time_time_def)
  next
    case (Ret b)
    with assms a show ?thesis
      by (subst wait_for_control.simps) (simp add: time_time_def)
  qed
qed

lemma wait_skip:
  assumes "float_add rnd start timeout = Inr d"
  shows "(\<forall>j<k. fl_lt (poll_time rnd w j) d \<and> poll_result loads s w j = Ret False) \<Longrightarrow>
         wait_for_control loads rnd start timeout s w =
         wait_for_control loads rnd start timeout s (poll_world loads s w k)"
proof (induction k)
  case 0
  show ?case by simp
next
  case (Suc k)
  then have IH: "wait_for_control loads rnd start timeout s w =
      wait_for_control loads rnd start timeout s (poll_world loads s w k)"
    by simp
  from Suc.prems have t: "fl_lt (poll_time rnd w k) d"
    and r: "poll_result loads s w k = Ret False"
    by simp_all
  from t have "fl_lt (round_to rnd (clock (poll_world loads s w k)
      (reads (poll_world loads s w k)))) d"
    by (simp add: poll_time_world)
  from wait_round_go [OF assms this, of loads s] r
  have "wait_for_control loads rnd start timeout s (poll_world loads s w k) =
      wait_for_control loads rnd start timeout s (poll_world loads s w (Suc k))"
    by (simp add: poll_result_def)
  with IH show ?case by simp
qed

lemma wait_result:
  assumes "float_add rnd start timeout = Inr d" and "\<not> fl_lt (poll_time rnd w n) d"
  shows "\<exists>k\<le>n. (\<forall>j<k. fl_lt (poll_time rnd w j) d \<and> poll_result loads s w j = Ret False) \<and>
           wait_for_control loads rnd start timeout s w =
             Some (if fl_lt (poll_time rnd w k) d
                   then (poll_result loads s w k, s, poll_world loads s w (Suc k))
                   else (Ret False, s, (poll_world loads s w k)\<lparr>reads :=
                           Suc (reads (poll_world loads s w k))\<rparr>)) \<and>
           (fl_lt (poll_time rnd w k) d \<longrightarrow> poll_result loads s w k \<noteq> Ret False)"
proof -
  define Q where "Q j \<longleftrightarrow> fl_lt (poll_time rnd w j) d \<and> poll_result loads s w j = Ret False"
    for j
  define k where "k = (LEAST j. \<not> Q j)"
  from assms(2) have nQ: "\<not> Q n" by (simp add: Q_def)
  then have kn: "k \<le> n" unfolding k_def by (rule Least_le)
  from nQ have nk: "\<not> Q k" unfolding k_def by (rule LeastI)
  have before: "\<forall>j<k. Q j" using not_less_Least k_def by blast
  then have skip: "wait_for_control loads rnd start timeout s w =
      wait_for_control loads rnd start timeout s (poll_world loads s w k)"
    by (intro wait_skip [OF assms(1)]) (simp add: Q_def)
  have stop: "wait_for_control loads rnd start timeout s (poll_world loads s w k) =
      Some (if fl_lt (poll_time rnd w k) d
            then (poll_result loads s w k, s, poll_world loads s w (Suc k))
            else (Ret False, s, (poll_world loads s w k)\<lparr>reads :=
                    Suc (reads (poll_world loads s w k))\<rparr>))"
  proof (cases "fl_lt (poll_time rnd w k) d")
    case False
    then have "\<not> fl_lt (round_to rnd (clock (poll_world loads s w k)
        (reads (poll_world loads s w k)))) d"
      by (simp add: poll_time_world)
    from wait_round_stop [OF assms(1) this] False show ?thesis by simp
  next
    case True
    with nk have r: "poll_result loads s w k \<noteq> Ret False" by (simp add: Q_def)
    from True have "fl_lt (round_to rnd (clock (poll_world loads s w k)
        (reads (poll_world loads s w k)))) d"
      by (simp add: poll_time_world)
    from wait_round_go [OF assms(1) this, of loads s] r True show ?thesis
      by (simp add: poll_result_def)
  qed
  from kn before nk skip stop show ?thesis
    unfolding Q_def by (intro exI [of _ k]) auto
qed

text \<open>
  Conversely, the loop never ends when every reading is before the deadline and every
  query returns \<^verbatim>\<open>False\<close>.
\<close>

lemma wait_for_ever:
  assumes d: "float_add rnd start timeout = Inr d"
    and all: "\<And>k. fl_lt (poll_time rnd w k) d \<and> poll_result loads s w k = Ret False"
  shows "wait_for_control loads rnd start timeout s w = None"
proof (cases "wait_for_control loads rnd start timeout s w")
  case None
  then show ?thesis .
next
  case (Some y)
  have "\<not> (loads = loads \<and> rnd = rnd \<and> start = start \<and> timeout = timeout \<and> s = s \<and>
      (\<exists>k. w = poll_world loads s w k))"
  proof (rule wait_for_control.raw_induct
      [where P = "\<lambda>l r st t c v z. \<not> (l = loads \<and> r = rnd \<and> st = start \<and> t = timeout \<and>
          c = s \<and> (\<exists>k. v = poll_world loads s w k))", OF _ Some])
    fix f :: "(string \<Rightarrow> json option) \<Rightarrow> rounding \<Rightarrow> pyfloat \<Rightarrow> json \<Rightarrow> connector \<Rightarrow> world
        \<Rightarrow> (bool res \<times> connector \<times> world) option"
      and l r st t c v z
    assume IH: "\<And>l r st t c v z. f l r st t c v = Some z \<Longrightarrow>
        \<not> (l = loads \<and> r = rnd \<and> st = start \<and> t = timeout \<and> c = s \<and>
           (\<exists>k. v = poll_world loads s w k))"
    assume body: "(case time_time r v of
        (now, w1) \<Rightarrow>
          case float_add r st t of Inl e \<Rightarrow> Some (Exc e, c, w1)
          | Inr deadline \<Rightarrow>
              if fl_lt now deadline
              then case is_control_token_active l c w1 of
                   (Ret b, s2, w2) \<Rightarrow>
                     if b then Some (Ret True, s2, w2)
                     else f l r st t s2 w2
                   | (Exc e, s2, w2) \<Rightarrow> Some (Exc e, s2, w2)
              else Some (Ret False, c, w1)) = Some z"
    show "\<not> (l = loads \<and> r = rnd \<and> st = start \<and> t = timeout \<and> c = s \<and>
        (\<exists>k. v = poll_world loads s w k))"
    proof
      assume "l = loads \<and> r = rnd \<and> st = start \<and> t = timeout \<and> c = s \<and>
        (\<exists>k. v = poll_world loads s w k)"
      then obtain k where eq: "l = loads" "r = rnd" "st = start" "t = timeout" "c = s"
        and v: "v = poll_world loads s w k"
        by blast
      let ?v1 = "v\<lparr>reads := Suc (reads v)\<rparr>"
      from all [of k] have lt: "fl_lt (round_to rnd (clock v (reads v))) d"
        by (simp add: v poll_time_world)
      from all [of k] have "fst (is_control_token_active loads s ?v1) = Ret False"
        by (simp add: v poll_result_def)
      with is_active_triple [of loads s ?v1]
      have a: "is_control_token_active loads s ?v1 = (Ret False, s, poll_world loads s w (Suc k))"
        by (simp add: v)
      from body have "f loads rnd start timeout s (poll_world loads s w (Suc k)) = Some z"
        by (simp add: eq time_time_def d lt a)
      from IH [OF this] show False by blast
    qed
  qed
  moreover have "w = poll_world loads s w 0" by simp
  ultimately show ?thesis by blast
qed

lemma acquire_forced_wait:
  assumes "session s = Some ss"
    and "call s (url s ''/admin/api/safety'') GET None 5 w = (Some resp, w1)"
    and "load_key loads (resp_text resp) ''tokenForceTimeout'' = Inr timeout"
    and "call s (url s ''/admin/api/control-token/request?force'') POST
           (Some (JObj [(''requestedBy'', JStr (username s))])) 5 w1 = (Some resp2, w2)"
    and "load_key loads (resp_text resp2) ''token'' = Inr tok"
    and "load_key loads (resp_text resp2) ''id'' = Inr i"
  shows "acquire_control_token loads rnd True s w =
           wait_for_control loads rnd (round_to rnd (clock w2 (reads w2))) timeout
             (token_held s ss tok i) (w2\<lparr>reads := Suc (reads w2)\<rparr>)"
  by (simp add: acquire_control_token_def assms(2,3,4) store_control_token_ok [OF assms(1,5,6)]
      time_time_def)


subsection \<open>The forced branch\<close>

lemma desk_forced:
  assumes "sent w = []" and "reads w = 0"
    and "\<And>req. respond w 0 req = ok t"
    and "\<And>req. respond w (Suc 0) req = ok ''token 7''"
    and "desk_loads t = Some (JObj [(''tokenForceTimeout'', timeout)])"
  shows "\<exists>w2. acquire_control_token desk_loads rnd True desk_connector w =
           wait_for_control desk_loads rnd (round_to rnd (clock w 0)) timeout holder
             (w2\<lparr>reads := Suc 0\<rparr>) \<and>
         clock w2 = clock w \<and> respond w2 = respond w \<and> length (sent w2) = 2 \<and> reads w2 = 0"
proof -
  let ?js = "Some (JObj [(''requestedBy'', JStr (username desk_connector))])"
  let ?r1 = "request_of desk_session GET (url desk_connector ''/admin/api/safety'') None"
  let ?r2 = "request_of desk_session POST
      (url desk_connector ''/admin/api/control-token/request?force'') ?js"
  let ?w1 = "w\<lparr>sent := sent w @ [?r1]\<rparr>"
  let ?w2 = "?w1\<lparr>sent := sent ?w1 @ [?r2]\<rparr>"
  have s: "session desk_connector = Some desk_session" by (simp add: desk_connector_def)
  have c1: "call desk_connector (url desk_connector ''/admin/api/safety'') GET None 5 w =
      (Some \<lparr>status_code = 200, resp_text = t\<rparr>, ?w1)"
    unfolding call_def
    by (intro call_loop_ok_step [OF s]) (simp_all add: assms(1,3) ok_def)
  have c2: "call desk_connector (url desk_connector ''/admin/api/control-token/request?force'')
      POST ?js 5 ?w1 = (Some \<lparr>status_code = 200, resp_text = ''token 7''\<rparr>, ?w2)"
    unfolding call_def
    by (intro call_loop_ok_step [OF s]) (simp_all add: assms(1,4) ok_def)
  have l0: "load_key desk_loads (resp_text \<lparr>status_code = 200, resp_text = t\<rparr>)
      ''tokenForceTimeout'' = Inr timeout"
    by (simp add: load_key_def assms(5))
  have lt: "load_key desk_loads (resp_text \<lparr>status_code = 200, resp_text = ''token 7''\<rparr>)
      ''token'' = Inr (JStr ''secret'')"
    and li: "load_key desk_loads (resp_text \<lparr>status_code = 200, resp_text = ''token 7''\<rparr>)
      ''id'' = Inr (JInt 7)"
    by (simp_all add: load_key_def desk_loads_def)
  from acquire_forced_wait [OF s c1 l0 c2 lt li, of rnd, folded holder_def]
  show ?thesis by (intro exI [of _ ?w2]) (simp add: assms(1,2))
qed

lemma desk_poll:
  assumes "respond w (length (sent w)) (request_of (the (session holder)) GET
             (url holder ''/admin/api/control-token'') None) = ok t"
  shows "is_control_token_active desk_loads holder w =
           (case load_key desk_loads t ''activeToken'' of
              Inl e \<Rightarrow> Exc e
            | Inr a \<Rightarrow> if a = JNull then Ret False
                       else (case subscript a ''id'' of
                               Inl e \<Rightarrow> Exc e
                             | Inr i \<Rightarrow> Ret (py_eq i (JInt 7))),
            holder,
            w\<lparr>sent := sent w @ [request_of (the (session holder)) GET
                 (url holder ''/admin/api/control-token'') None]\<rparr>)"
proof -
  have s: "session holder = Some (the (session holder))"
    by (simp add: holder_def token_held_def desk_connector_def)
  have "call holder (url holder ''/admin/api/control-token'') GET None 5 w =
      (Some \<lparr>status_code = 200, resp_text = t\<rparr>,
       w\<lparr>sent := sent w @ [request_of (the (session holder)) GET
            (url holder ''/admin/api/control-token'') None]\<rparr>)"
    unfolding call_def using assms
    by (intro call_loop_ok_step [OF s]) (simp_all add: ok_def)
  then show ?thesis
    by (simp add: is_control_token_active_def holder_def token_held_def
        split: sum.splits)
qed

text \<open>
  Claim C9 fails as it stands, in two ways. On a wall clock that is set back between the
  reading that gives \<^verbatim>\<open>start\<close> (100) and the first reading of the loop (50), a
  timeout of 0 lets the loop make a query, and the method returns \<^verbatim>\<open>True\<close> after
  three requests. And a timeout that is an int below the range of floats, \<open>- 2 ^ 1024\<close>,
  makes \<^verbatim>\<open>start + timeout\<close> raise \<^verbatim>\<open>OverflowError\<close>: the method returns nothing.
\<close>

theorem acquire_forced_polls:
  "(\<exists>w'. acquire_control_token desk_loads desk_rounding True desk_connector
            (set_back (desk_world [ok ''timeout 0'', ok ''token 7'', ok ''active 7''])) =
          Some (Ret True, holder, w') \<and> length (sent w') = 3) \<and>
   desk_loads ''timeout 0'' = Some (JObj [(''tokenForceTimeout'', JInt 0)]) \<and>
   num_le0 (JInt 0) \<and>
   (\<exists>w'. acquire_control_token desk_loads desk_rounding True desk_connector
            (desk_world [ok ''timeout low'', ok ''token 7'', ok ''active 7'']) =
          Some (Exc OverflowError, holder, w') \<and> length (sent w') = 2) \<and>
   desk_loads ''timeout low'' = Some (JObj [(''tokenForceTimeout'', JInt (- (2 ^ 1024)))]) \<and>
   num_le0 (JInt (- (2 ^ 1024)))"
proof -
  let ?outs = "[ok ''active 7'']"
  let ?w = "set_back (desk_world (ok ''timeout 0'' # ok ''token 7'' # ?outs))"
  let ?v = "desk_world (ok ''timeout low'' # ok ''token 7'' # ?outs)"
  have l0: "desk_loads ''timeout 0'' = Some (JObj [(''tokenForceTimeout'', JInt 0)])"
    and l1: "desk_loads ''timeout low'' = Some (JObj [(''tokenForceTimeout'', JInt (- (2 ^ 1024)))])"
    by (simp_all add: desk_loads_def)
  have "\<exists>w2. acquire_control_token desk_loads desk_rounding True desk_connector ?w =
      wait_for_control desk_loads desk_rounding (round_to desk_rounding (clock ?w 0)) (JInt 0)
        holder (w2\<lparr>reads := Suc 0\<rparr>) \<and>
      clock w2 = clock ?w \<and> respond w2 = respond ?w \<and> length (sent w2) = 2 \<and> reads w2 = 0"
    by (rule desk_forced [OF _ _ _ _ l0]) (simp_all add: set_back_def desk_world_def)
  then obtain w2 where a: "acquire_control_token desk_loads desk_rounding True desk_connector ?w =
      wait_for_control desk_loads desk_rounding (round_to desk_rounding (clock ?w 0)) (JInt 0)
        holder (w2\<lparr>reads := Suc 0\<rparr>)"
    and w2: "clock w2 = clock ?w" "respond w2 = respond ?w" "length (sent w2) = 2" "reads w2 = 0"
    by blast
  have start: "round_to desk_rounding (clock ?w 0) = Fin 100"
    by (simp add: set_back_def desk_round)
  have d: "float_add desk_rounding (Fin 100) (JInt 0) = Inr (Fin 100)"
    by (simp add: to_float_def round_zero desk_round)
  have now: "fl_lt (round_to desk_rounding (clock (w2\<lparr>reads := Suc 0\<rparr>)
      (reads (w2\<lparr>reads := Suc 0\<rparr>)))) (Fin 100)"
    by (simp add: w2 set_back_def desk_round)
  have p: "is_control_token_active desk_loads holder (w2\<lparr>reads := Suc (Suc 0)\<rparr>) =
      (Ret True, holder,
       w2\<lparr>reads := Suc (Suc 0), sent := sent w2 @ [request_of (the (session holder)) GET
         (url holder ''/admin/api/control-token'') None]\<rparr>)"
    by (subst desk_poll [where t = "''active 7''"])
      (simp_all add: w2 set_back_def desk_world_def load_key_def desk_loads_def)
  have "acquire_control_token desk_loads desk_rounding True desk_connector ?w =
      Some (Ret True, holder,
        w2\<lparr>reads := Suc (Suc 0), sent := sent w2 @ [request_of (the (session holder)) GET
          (url holder ''/admin/api/control-token'') None]\<rparr>)"
    unfolding a start by (subst wait_round_go [OF d now]) (simp add: p)
  then have A: "\<exists>w'. acquire_control_token desk_loads desk_rounding True desk_connector ?w =
      Some (Ret True, holder, w') \<and> length (sent w') = 3"
    by (simp add: w2)
  have "\<exists>w2. acquire_control_token desk_loads desk_rounding True desk_connector ?v =
      wait_for_control desk_loads desk_rounding (round_to desk_rounding (clock ?v 0))
        (JInt (- (2 ^ 1024))) holder (w2\<lparr>reads := Suc 0\<rparr>) \<and>
      clock w2 = clock ?v \<and> respond w2 = respond ?v \<and> length (sent w2) = 2 \<and> reads w2 = 0"
    by (rule desk_forced [OF _ _ _ _ l1]) (simp_all add: desk_world_def)
  then obtain v2 where b: "acquire_control_token desk_loads desk_rounding True desk_connector ?v =
      wait_for_control desk_loads desk_rounding (round_to desk_rounding (clock ?v 0))
        (JInt (- (2 ^ 1024))) holder (v2\<lparr>reads := Suc 0\<rparr>)"
    and v2: "length (sent v2) = 2"
    by blast
  have "real_of_int (- (2 ^ 1024)) = - float_bound" by (simp add: float_bound_def)
  then have e: "\<And>x. float_add desk_rounding x (JInt (- (2 ^ 1024))) = Inl OverflowError"
    by (simp add: to_float_def desk_round_low)
  have "acquire_control_token desk_loads desk_rounding True desk_connector ?v =
      Some (Exc OverflowError, holder, v2\<lparr>reads := Suc (Suc 0)\<rparr>)"
    unfolding b by (subst wait_round_raise [OF e]) simp
  then have B: "\<exists>w'. acquire_control_token desk_loads desk_rounding True desk_connector ?v =
      Some (Exc OverflowError, holder, w') \<and> length (sent w') = 2"
    by (simp add: v2)
  from A B l0 l1 show ?thesis by simp
qed

text \<open>
  Claim C9, amended. In the forced branch, after a successful safety query whose
  \<^verbatim>\<open>tokenForceTimeout\<close> is at most 0 and not an int beyond the range of floats, and a
  successful forced request whose token has been stored and put into the headers, on a
  clock whose first reading in the loop is not before the reading that gave
  \<^verbatim>\<open>start\<close>, the method returns \<^verbatim>\<open>False\<close> having read the clock twice and made no
  request after the token request: not one query of the active token. This holds for
  every rounding of the float arithmetic.
\<close>

theorem acquire_forced_no_poll:
  assumes "session s = Some ss"
    and "call s (url s ''/admin/api/safety'') GET None 5 w = (Some resp, w1)"
    and "load_key loads (resp_text resp) ''tokenForceTimeout'' = Inr timeout"
    and "num_le0 timeout" and "\<not> overflows rnd timeout"
    and "call s (url s ''/admin/api/control-token/request?force'') POST
           (Some (JObj [(''requestedBy'', JStr (username s))])) 5 w1 = (Some resp2, w2)"
    and "load_key loads (resp_text resp2) ''token'' = Inr tok"
    and "load_key loads (resp_text resp2) ''id'' = Inr i"
    and "clock w2 (reads w2) \<le> clock w2 (Suc (reads w2))"
  shows "acquire_control_token loads rnd True s w =
           Some (Ret False, token_held s ss tok i, w2\<lparr>reads := Suc (Suc (reads w2))\<rparr>)"
proof -
  let ?start = "round_to rnd (clock w2 (reads w2))" and ?w3 = "w2\<lparr>reads := Suc (reads w2)\<rparr>"
  from le0_defined [OF assms(4,5)] obtain d where d: "float_add rnd ?start timeout = Inr d"
    by blast
  from le0_value [OF assms(4) d] obtain y where y: "fl_le y (Fin 0)" "d = fl_add rnd ?start y"
    by blast
  from deadline_passed [OF assms(9) y(1), of rnd] y(2)
  have "\<not> fl_lt (round_to rnd (clock ?w3 (reads ?w3))) d" by simp
  from wait_round_stop [OF d this]
  have "wait_for_control loads rnd ?start timeout (token_held s ss tok i) ?w3 =
      Some (Ret False, token_held s ss tok i, ?w3\<lparr>reads := Suc (reads ?w3)\<rparr>)" .
  then show ?thesis
    by (simp add: acquire_forced_wait [OF assms(1,2,3,6,7,8)])
qed

theorem acquire_forced_no_poll_witness:
  "\<exists>w'. acquire_control_token desk_loads desk_rounding True desk_connector
          (desk_world [ok ''timeout 0'', ok ''token 7'', ok ''active 7'']) =
        Some (Ret False, holder, w') \<and>
      length (sent w') = 2 \<and>
      fst (is_control_token_active desk_loads holder w') = Ret True"
proof -
  let ?js = "Some (JObj [(''requestedBy'', JStr (username desk_connector))])"
  let ?w = "desk_world [ok ''timeout 0'', ok ''token 7'', ok ''active 7'']"
  let ?w1 = "snd (call desk_connector (url desk_connector ''/admin/api/safety'') GET None 5 ?w)"
  let ?w2 = "snd (call desk_connector (url desk_connector ''/admin/api/control-token/request?force'')
      POST ?js 5 ?w1)"
  have s: "session desk_connector = Some desk_session" by (simp add: desk_connector_def)
  have c1: "call desk_connector (url desk_connector ''/admin/api/safety'') GET None 5 ?w =
      (Some \<lparr>status_code = 200, resp_text = ''timeout 0''\<rparr>, ?w1)"
    by (simp add: run_defs)
  have c2: "call desk_connector (url desk_connector ''/admin/api/control-token/request?force'')
      POST ?js 5 ?w1 = (Some \<lparr>status_code = 200, resp_text = ''token 7''\<rparr>, ?w2)"
    by (simp add: run_defs)
  have l0: "load_key desk_loads (resp_text \<lparr>status_code = 200, resp_text = ''timeout 0''\<rparr>)
      ''tokenForceTimeout'' = Inr (JInt 0)"
    and lt: "load_key desk_loads (resp_text \<lparr>status_code = 200, resp_text = ''token 7''\<rparr>)
      ''token'' = Inr (JStr ''secret'')"
    and li: "load_key desk_loads (resp_text \<lparr>status_code = 200, resp_text = ''token 7''\<rparr>)
      ''id'' = Inr (JInt 7)"
    by (simp_all add: load_key_def desk_loads_def)
  have n: "num_le0 (JInt 0)" by simp
  have o: "\<not> overflows desk_rounding (JInt 0)" by (simp add: to_float_def round_zero)
  have m: "clock ?w2 (reads ?w2) \<le> clock ?w2 (Suc (reads ?w2))"
    by (simp add: call_world desk_world_def)
  have r: "acquire_control_token desk_loads desk_rounding True desk_connector ?w =
      Some (Ret False, holder, ?w2\<lparr>reads := Suc (Suc (reads ?w2))\<rparr>)"
    unfolding holder_def by (rule acquire_forced_no_poll [OF s c1 l0 n o c2 lt li m])
  have q: "length (sent (?w2\<lparr>reads := Suc (Suc (reads ?w2))\<rparr>)) = 2"
    by (simp add: run_defs)
  have a: "fst (is_control_token_active desk_loads holder (?w2\<lparr>reads := Suc (Suc (reads ?w2))\<rparr>)) =
      Ret True"
    by (simp add: is_control_token_active_def holder_def token_held_def run_defs
        load_key_def desk_loads_def)
  from r q a show ?thesis by blast
qed


lemma idle_rounds:
  assumes "respond w = respond idle_desk" and "2 \<le> length (sent w)"
  shows "2 \<le> length (sent (poll_world desk_loads holder w k)) \<and>
         poll_result desk_loads holder w k = Ret False"
proof (induction k)
  case 0
  have "is_control_token_active desk_loads holder (w\<lparr>reads := Suc (reads w)\<rparr>) =
      (Ret False, holder,
       w\<lparr>reads := Suc (reads w), sent := sent w @ [request_of (the (session holder)) GET
         (url holder ''/admin/api/control-token'') None]\<rparr>)"
    using assms
    by (subst desk_poll [where t = "''idle''"])
      (auto simp: idle_desk_def load_key_def desk_loads_def)
  with assms(2) show ?case by (simp add: poll_result_def)
next
  case (Suc k)
  let ?v = "poll_world desk_loads holder w k"
  let ?v1 = "?v\<lparr>reads := Suc (reads ?v)\<rparr>"
  let ?u = "poll_world desk_loads holder w (Suc k)"
  from Suc have n: "2 \<le> length (sent ?v)" by simp
  have r: "respond ?v = respond idle_desk" by (simp add: poll_world_clock assms(1))
  have a: "is_control_token_active desk_loads holder ?v1 =
      (Ret False, holder,
       ?v1\<lparr>sent := sent ?v1 @ [request_of (the (session holder)) GET
         (url holder ''/admin/api/control-token'') None]\<rparr>)"
    using n r
    by (subst desk_poll [where t = "''idle''"])
      (auto simp: idle_desk_def load_key_def desk_loads_def)
  then have u: "?u = ?v1\<lparr>sent := sent ?v1 @ [request_of (the (session holder)) GET
      (url holder ''/admin/api/control-token'') None]\<rparr>"
    by simp
  have m: "2 \<le> length (sent ?u)" unfolding u using n by simp
  have ru: "respond ?u = respond idle_desk" by (simp only: poll_world_clock assms(1))
  have "is_control_token_active desk_loads holder (?u\<lparr>reads := Suc (reads ?u)\<rparr>) =
      (Ret False, holder,
       ?u\<lparr>reads := Suc (reads ?u), sent := sent ?u @ [request_of (the (session holder)) GET
         (url holder ''/admin/api/control-token'') None]\<rparr>)"
    using m ru
    by (subst desk_poll [where t = "''idle''"])
      (auto simp: idle_desk_def load_key_def desk_loads_def)
  then have "poll_result desk_loads holder w (Suc k) = Ret False"
    unfolding poll_result_def by simp
  with m show ?case by simp
qed

lemma slow_clock_range: "\<bar>slow_clock k\<bar> \<le> 1000"
proof -
  have "0 < 1 / (1 + real k)" and "1 / (1 + real k) \<le> 1" by simp_all
  then show ?thesis unfolding slow_clock_def abs_le_iff by linarith
qed

text \<open>
  Claim C2 fails as it stands, in two ways. A query that is answered with a body that is
  not JSON raises inside the loop, and the method ends with that exception: it returns
  neither true nor false. And when \<^verbatim>\<open>tokenForceTimeout\<close> is infinite (the decoder
  gives \<^verbatim>\<open>inf\<close> for a literal such as \<^verbatim>\<open>1e999\<close>), no finite reading of the clock ends
  the loop: on a desk that reports no holder for ever, with readings that stay below 100,
  the method never returns.
\<close>

theorem acquire_forced_unbounded:
  "(\<exists>w'. acquire_control_token desk_loads desk_rounding True desk_connector
            (desk_world [ok ''timeout 30'', ok ''token 7'', ok ''garbage'']) =
          Some (Exc JSONDecodeError, holder, w')) \<and>
   desk_loads ''timeout inf'' = Some (JObj [(''tokenForceTimeout'', JFloat PInf)]) \<and>
   acquire_control_token desk_loads desk_rounding True desk_connector idle_desk = None"
proof -
  let ?w = "desk_world [ok ''timeout 30'', ok ''token 7'', ok ''garbage'']"
  have l0: "desk_loads ''timeout 30'' = Some (JObj [(''tokenForceTimeout'', JInt 30)])"
    and l1: "desk_loads ''timeout inf'' = Some (JObj [(''tokenForceTimeout'', JFloat PInf)])"
    by (simp_all add: desk_loads_def)
  have "\<exists>w2. acquire_control_token desk_loads desk_rounding True desk_connector ?w =
      wait_for_control desk_loads desk_rounding (round_to desk_rounding (clock ?w 0)) (JInt 30)
        holder (w2\<lparr>reads := Suc 0\<rparr>) \<and>
      clock w2 = clock ?w \<and> respond w2 = respond ?w \<and> length (sent w2) = 2 \<and> reads w2 = 0"
    by (rule desk_forced [OF _ _ _ _ l0]) (simp_all add: desk_world_def)
  then obtain w2 where a: "acquire_control_token desk_loads desk_rounding True desk_connector ?w =
      wait_for_control desk_loads desk_rounding (round_to desk_rounding (clock ?w 0)) (JInt 30)
        holder (w2\<lparr>reads := Suc 0\<rparr>)"
    and w2: "clock w2 = clock ?w" "respond w2 = respond ?w" "length (sent w2) = 2" "reads w2 = 0"
    by blast
  have start: "round_to desk_rounding (clock ?w 0) = Fin 0"
    by (simp add: desk_world_def desk_round)
  have d: "float_add desk_rounding (Fin 0) (JInt 30) = Inr (Fin 30)"
    by (simp add: to_float_def desk_round)
  have now: "fl_lt (round_to desk_rounding (clock (w2\<lparr>reads := Suc 0\<rparr>)
      (reads (w2\<lparr>reads := Suc 0\<rparr>)))) (Fin 30)"
    by (simp add: w2 desk_world_def desk_round)
  have p: "is_control_token_active desk_loads holder (w2\<lparr>reads := Suc (Suc 0)\<rparr>) =
      (Exc JSONDecodeError, holder,
       w2\<lparr>reads := Suc (Suc 0), sent := sent w2 @ [request_of (the (session holder)) GET
         (url holder ''/admin/api/control-token'') None]\<rparr>)"
    by (subst desk_poll [where t = "''garbage''"])
      (simp_all add: w2 desk_world_def load_key_def desk_loads_def)
  have "acquire_control_token desk_loads desk_rounding True desk_connector ?w =
      Some (Exc JSONDecodeError, holder,
        w2\<lparr>reads := Suc (Suc 0), sent := sent w2 @ [request_of (the (session holder)) GET
          (url holder ''/admin/api/control-token'') None]\<rparr>)"
    unfolding a start by (subst wait_round_go [OF d now]) (simp add: p)
  then have A: "\<exists>w'. acquire_control_token desk_loads desk_rounding True desk_connector ?w =
      Some (Exc JSONDecodeError, holder, w')"
    by simp
  have "\<exists>w2. acquire_control_token desk_loads desk_rounding True desk_connector idle_desk =
      wait_for_control desk_loads desk_rounding (round_to desk_rounding (clock idle_desk 0))
        (JFloat PInf) holder (w2\<lparr>reads := Suc 0\<rparr>) \<and>
      clock w2 = clock idle_desk \<and> respond w2 = respond idle_desk \<and> length (sent w2) = 2 \<and>
      reads w2 = 0"
    by (rule desk_forced [OF _ _ _ _ l1]) (simp_all add: idle_desk_def)
  then obtain v2 where b: "acquire_control_token desk_loads desk_rounding True desk_connector
      idle_desk =
      wait_for_control desk_loads desk_rounding (round_to desk_rounding (clock idle_desk 0))
        (JFloat PInf) holder (v2\<lparr>reads := Suc 0\<rparr>)"
    and v2: "clock v2 = clock idle_desk" "respond v2 = respond idle_desk" "length (sent v2) = 2"
    by blast
  have c: "clock idle_desk = slow_clock" by (simp add: idle_desk_def)
  have e: "float_add desk_rounding (round_to desk_rounding (clock idle_desk 0)) (JFloat PInf) =
      Inr PInf"
    by (simp add: c desk_round slow_clock_range)
  have "wait_for_control desk_loads desk_rounding (round_to desk_rounding (clock idle_desk 0))
      (JFloat PInf) holder (v2\<lparr>reads := Suc 0\<rparr>) = None"
  proof (rule wait_for_ever [OF e])
    fix k
    have "poll_time desk_rounding (v2\<lparr>reads := Suc 0\<rparr>) k = Fin (slow_clock (Suc k))"
      by (simp add: poll_time_def v2 c desk_round slow_clock_range)
    moreover from idle_rounds [of "v2\<lparr>reads := Suc 0\<rparr>" k]
    have "poll_result desk_loads holder (v2\<lparr>reads := Suc 0\<rparr>) k = Ret False"
      by (simp add: v2)
    ultimately show "fl_lt (poll_time desk_rounding (v2\<lparr>reads := Suc 0\<rparr>) k) PInf \<and>
        poll_result desk_loads holder (v2\<lparr>reads := Suc 0\<rparr>) k = Ret False"
      by simp
  qed
  with b have B: "acquire_control_token desk_loads desk_rounding True desk_connector idle_desk =
      None"
    by simp
  from A B l1 show ?thesis by simp
qed

text \<open>
  Claim C2, amended. In the forced branch, after a successful safety query and a
  successful forced request whose token has been stored, let \<open>d\<close> be the float
  \<^verbatim>\<open>start + tokenForceTimeout\<close>. If some reading of the clock in the loop, the \<open>n\<close>-th,
  is not before \<open>d\<close>, then the method ends, after \<open>k \<le> n\<close> rounds whose reading was
  before \<open>d\<close> and whose query returned \<^verbatim>\<open>False\<close>. It ends either with the reading of
  round \<open>k\<close> not before \<open>d\<close>, returning \<^verbatim>\<open>False\<close>, or with the query of round \<open>k\<close>,
  begun before \<open>d\<close>, not returning \<^verbatim>\<open>False\<close>: then the method ends as that query does,
  returning \<^verbatim>\<open>True\<close> or raising the exception of a malformed answer. The connector keeps
  the stored token either way. This holds for every rounding of the float arithmetic.
\<close>

theorem acquire_forced_bounded:
  assumes "session s = Some ss"
    and "call s (url s ''/admin/api/safety'') GET None 5 w = (Some resp, w1)"
    and "load_key loads (resp_text resp) ''tokenForceTimeout'' = Inr timeout"
    and "call s (url s ''/admin/api/control-token/request?force'') POST
           (Some (JObj [(''requestedBy'', JStr (username s))])) 5 w1 = (Some resp2, w2)"
    and "load_key loads (resp_text resp2) ''token'' = Inr tok"
    and "load_key loads (resp_text resp2) ''id'' = Inr i"
    and "time_time rnd w2 = (start, w3)"
    and "float_add rnd start timeout = Inr d"
    and "\<not> fl_lt (poll_time rnd w3 n) d"
  shows "\<exists>k\<le>n.
           (\<forall>j<k. fl_lt (poll_time rnd w3 j) d \<and>
                  poll_result loads (token_held s ss tok i) w3 j = Ret False) \<and>
           acquire_control_token loads rnd True s w =
             Some (if fl_lt (poll_time rnd w3 k) d
                   then (poll_result loads (token_held s ss tok i) w3 k, token_held s ss tok i,
                         poll_world loads (token_held s ss tok i) w3 (Suc k))
                   else (Ret False, token_held s ss tok i,
                         snd (time_time rnd (poll_world loads (token_held s ss tok i) w3 k)))) \<and>
           (fl_lt (poll_time rnd w3 k) d \<longrightarrow>
              poll_result loads (token_held s ss tok i) w3 k \<noteq> Ret False)"
proof -
  from assms(7) have t: "start = round_to rnd (clock w2 (reads w2))"
    "w3 = w2\<lparr>reads := Suc (reads w2)\<rparr>"
    by (auto simp: time_time_def)
  have a: "acquire_control_token loads rnd True s w =
      wait_for_control loads rnd start timeout (token_held s ss tok i) w3"
    by (simp add: acquire_forced_wait [OF assms(1,2,3,4,5,6)] t)
  from wait_result [OF assms(8,9), of loads "token_held s ss tok i"] show ?thesis
    unfolding a time_time_def snd_conv .
qed

theorem acquire_forced_bounded_witness:
  "\<exists>w'. acquire_control_token desk_loads desk_rounding True desk_connector
          (desk_world [ok ''timeout 30'', ok ''token 7'', ok ''idle'', ok ''active 7'']) =
        Some (Ret True, holder, w')"
proof -
  let ?js = "Some (JObj [(''requestedBy'', JStr (username desk_connector))])"
  let ?w = "desk_world [ok ''timeout 30'', ok ''token 7'', ok ''idle'', ok ''active 7'']"
  let ?w1 = "snd (call desk_connector (url desk_connector ''/admin/api/safety'') GET None 5 ?w)"
  let ?w2 = "snd (call desk_connector (url desk_connector ''/admin/api/control-token/request?force'')
      POST ?js 5 ?w1)"
  let ?w3 = "snd (time_time desk_rounding ?w2)"
  have s: "session desk_connector = Some desk_session" by (simp add: desk_connector_def)
  have c1: "call desk_connector (url desk_connector ''/admin/api/safety'') GET None 5 ?w =
      (Some \<lparr>status_code = 200, resp_text = ''timeout 30''\<rparr>, ?w1)"
    by (simp add: run_defs)
  have c2: "call desk_connector (url desk_connector ''/admin/api/control-token/request?force'')
      POST ?js 5 ?w1 = (Some \<lparr>status_code = 200, resp_text = ''token 7''\<rparr>, ?w2)"
    by (simp add: run_defs)
  have l0: "load_key desk_loads (resp_text \<lparr>status_code = 200, resp_text = ''timeout 30''\<rparr>)
      ''tokenForceTimeout'' = Inr (JInt 30)"
    and lt: "load_key desk_loads (resp_text \<lparr>status_code = 200, resp_text = ''token 7''\<rparr>)
      ''token'' = Inr (JStr ''secret'')"
    and li: "load_key desk_loads (resp_text \<lparr>status_code = 200, resp_text = ''token 7''\<rparr>)
      ''id'' = Inr (JInt 7)"
    by (simp_all add: load_key_def desk_loads_def)
  have t: "time_time desk_rounding ?w2 = (Fin 0, ?w3)"
    by (simp add: time_time_def call_world desk_world_def desk_round)
  have d: "float_add desk_rounding (Fin 0) (JInt 30) = Inr (Fin 30)"
    by (simp add: to_float_def desk_round)
  have pt: "\<And>j. j \<le> 2 \<Longrightarrow> poll_time desk_rounding ?w3 j = Fin (10 * real (Suc j))"
    by (simp add: poll_time_def time_time_def call_world desk_world_def desk_round)
  have p: "\<not> fl_lt (poll_time desk_rounding ?w3 2) (Fin 30)" by (simp add: pt)
  have r0: "poll_result desk_loads holder ?w3 0 = Ret False"
    by (simp add: poll_result_def time_time_def is_control_token_active_def holder_def
        token_held_def run_defs load_key_def desk_loads_def)
  have r1: "poll_result desk_loads holder ?w3 (Suc 0) = Ret True"
    by (simp add: poll_result_def time_time_def is_control_token_active_def holder_def
        token_held_def run_defs load_key_def desk_loads_def)
  from acquire_forced_bounded [OF s c1 l0 c2 lt li t d p, folded holder_def]
  obtain k where k: "k \<le> 2"
    and A: "\<forall>j<k. fl_lt (poll_time desk_rounding ?w3 j) (Fin 30) \<and>
        poll_result desk_loads holder ?w3 j = Ret False"
    and B: "acquire_control_token desk_loads desk_rounding True desk_connector ?w =
        Some (if fl_lt (poll_time desk_rounding ?w3 k) (Fin 30)
              then (poll_result desk_loads holder ?w3 k, holder,
                    poll_world desk_loads holder ?w3 (Suc k))
              else (Ret False, holder,
                    snd (time_time desk_rounding (poll_world desk_loads holder ?w3 k))))"
    and C: "fl_lt (poll_time desk_rounding ?w3 k) (Fin 30) \<longrightarrow>
        poll_result desk_loads holder ?w3 k \<noteq> Ret False"
    by blast
  from k have "k = 0 \<or> k = Suc 0 \<or> k = 2" by auto
  then have "k = Suc 0"
  proof (elim disjE)
    assume "k = 0"
    with C r0 pt [of 0] show ?thesis by simp
  next
    assume "k = Suc 0"
    then show ?thesis .
  next
    assume "k = 2"
    with A have "poll_result desk_loads holder ?w3 (Suc 0) = Ret False" by simp
    with r1 show ?thesis by simp
  qed
  with B r1 pt [of "Suc 0"] show ?thesis by simp
qed


subsection \<open>The capability requirement is only written by the version query\<close>

lemma store_control_token_req:
  "control_token_req (snd (store_control_token loads resp s)) = control_token_req s"
  by (simp add: store_control_token_def Let_def split: sum.splits option.splits)

lemma succeeded_connector: "fst (snd (succeeded s r)) = s"
  by (simp add: succeeded_def split: prod.splits option.splits)

lemma acquire_req:
  assumes "acquire_control_token loads rnd force s w = Some y"
  shows "control_token_req (fst (snd y)) = control_token_req s"
proof (cases force)
  case False
  show ?thesis
  proof (cases "call s (url s ''/admin/api/control-token/request'') POST
      (Some (JObj [(''requestedBy'', JStr (username s))])) 5 w")
    case (Pair r w1)
    show ?thesis
    proof (cases r)
      case None
      with assms False Pair show ?thesis by (auto simp: acquire_control_token_def)
    next
      case (Some resp)
      obtain u s1 where st: "store_control_token loads resp s = (u, s1)"
        by (cases "store_control_token loads resp s")
      with store_control_token_req [of loads resp s]
      have q: "control_token_req s1 = control_token_req s" by simp
      show ?thesis
      proof (cases u)
        case (Exc e)
        with assms False Pair Some st q show ?thesis by (auto simp: acquire_control_token_def)
      next
        case (Ret x)
        with assms False Pair Some st have "y = is_control_token_active loads s1 w1"
          by (auto simp: acquire_control_token_def)
        with q show ?thesis by (simp add: is_active_connector)
      qed
    qed
  qed
next
  case True
  show ?thesis
  proof (cases "call s (url s ''/admin/api/safety'') GET None 5 w")
    case (Pair r w1)
    show ?thesis
    proof (cases r)
      case None
      with assms True Pair show ?thesis by (auto simp: acquire_control_token_def)
    next
      case (Some resp)
      note safety = Pair Some
      show ?thesis
      proof (cases "load_key loads (resp_text resp) ''tokenForceTimeout''")
        case (Inl e)
        with assms True safety show ?thesis by (auto simp: acquire_control_token_def)
      next
        case (Inr timeout)
        show ?thesis
        proof (cases "call s (url s ''/admin/api/control-token/request?force'') POST
            (Some (JObj [(''requestedBy'', JStr (username s))])) 5 w1")
          case (Pair r2 w2)
          show ?thesis
          proof (cases r2)
            case None
            with assms True safety Inr Pair show ?thesis
              by (auto simp: acquire_control_token_def)
          next
            case (Some resp2)
            obtain u s1 where st: "store_control_token loads resp2 s = (u, s1)"
              by (cases "store_control_token loads resp2 s")
            with store_control_token_req [of loads resp2 s]
            have q: "control_token_req s1 = control_token_req s" by simp
            show ?thesis
            proof (cases u)
              case (Exc e)
              with assms True safety Inr Pair Some st q show ?thesis
                by (auto simp: acquire_control_token_def)
            next
              case (Ret x)
              with assms True safety Inr Pair Some st
              have "wait_for_control loads rnd (fst (time_time rnd w2)) timeout s1
                  (snd (time_time rnd w2)) = Some y"
                by (auto simp: acquire_control_token_def split: prod.splits)
              then have "fst (snd y) = s1" by (rule wait_connector)
              with q show ?thesis by simp
            qed
          qed
        qed
      qed
    qed
  qed
qed

text \<open>
  Claim C8. \<^verbatim>\<open>control_token_req\<close> is the same before and after \<^verbatim>\<open>login\<close>,
  \<^verbatim>\<open>logout\<close>, \<^verbatim>\<open>is_control_token_active\<close>, \<^verbatim>\<open>can_control\<close>,
  \<^verbatim>\<open>release_control_token\<close>, \<^verbatim>\<open>enable_fci\<close>, \<^verbatim>\<open>disable_fci\<close>, \<^verbatim>\<open>open_brakes\<close>,
  \<^verbatim>\<open>close_brakes\<close>, \<^verbatim>\<open>home_gripper\<close>, and every run of \<^verbatim>\<open>acquire_control_token\<close>
  that ends, whether they return or raise. Only \<^verbatim>\<open>read_system_version\<close> assigns it.
\<close>

theorem control_token_req_unchanged:
  "control_token_req (fst (snd (login s retries w))) = control_token_req s \<and>
   control_token_req (fst (snd (logout s w))) = control_token_req s \<and>
   control_token_req (fst (snd (is_control_token_active loads s w))) = control_token_req s \<and>
   control_token_req (fst (snd (can_control loads s w))) = control_token_req s \<and>
   control_token_req (fst (snd (release_control_token s w))) = control_token_req s \<and>
   control_token_req (fst (snd (enable_fci s w))) = control_token_req s \<and>
   control_token_req (fst (snd (disable_fci s w))) = control_token_req s \<and>
   control_token_req (fst (snd (open_brakes s retries w))) = control_token_req s \<and>
   control_token_req (fst (snd (close_brakes s w))) = control_token_req s \<and>
   control_token_req (fst (snd (home_gripper s w))) = control_token_req s \<and>
   (\<forall>y. acquire_control_token loads rnd force s w = Some y \<longrightarrow>
      control_token_req (fst (snd y)) = control_token_req s)"
proof (intro conjI allI impI)
  show "control_token_req (fst (snd (login s retries w))) = control_token_req s"
    by (simp add: login_def split: prod.splits option.splits)
  show "control_token_req (fst (snd (logout s w))) = control_token_req s"
    by (simp add: logout_def split: prod.splits option.splits)
  show "control_token_req (fst (snd (is_control_token_active loads s w))) = control_token_req s"
    by (simp add: is_active_connector)
  show "control_token_req (fst (snd (can_control loads s w))) = control_token_req s"
    using is_active_connector [of loads s w]
    by (auto simp: can_control_def split: prod.splits res.splits)
  show "control_token_req (fst (snd (release_control_token s w))) = control_token_req s"
    by (simp add: release_control_token_def Let_def split: prod.splits option.splits)
  show "control_token_req (fst (snd (enable_fci s w))) = control_token_req s"
    by (simp add: enable_fci_def succeeded_connector)
  show "control_token_req (fst (snd (disable_fci s w))) = control_token_req s"
    by (simp add: disable_fci_def succeeded_connector)
  show "control_token_req (fst (snd (open_brakes s retries w))) = control_token_req s"
    by (simp add: open_brakes_def succeeded_connector)
  show "control_token_req (fst (snd (close_brakes s w))) = control_token_req s"
    by (simp add: close_brakes_def succeeded_connector)
  show "control_token_req (fst (snd (home_gripper s w))) = control_token_req s"
    by (simp add: home_gripper_def succeeded_connector)
next
  fix y
  assume "acquire_control_token loads rnd force s w = Some y"
  then show "control_token_req (fst (snd y)) = control_token_req s" by (rule acquire_req)
qed

theorem control_token_req_unchanged_witness:
  "control_token_req holder_req \<and>
   fst (login holder_req 20 (desk_world [ok ''credential''])) = Ret True \<and>
   control_token_req (fst (snd (login holder_req 20 (desk_world [ok ''credential''])))) \<and>
   (\<exists>y. acquire_control_token desk_loads desk_rounding False holder_req
           (desk_world [ok ''token 7'', ok ''active 7'']) = Some y \<and>
        fst y = Ret True \<and> control_token_req (fst (snd y)))"
proof -
  note t = control_token_req_unchanged [of holder_req 20 "desk_world [ok ''credential'']" desk_loads
      desk_rounding False]
  note u = control_token_req_unchanged [of holder_req 20
      "desk_world [ok ''token 7'', ok ''active 7'']" desk_loads desk_rounding False]
  have q: "control_token_req holder_req" by (simp add: holder_req_def)
  have l: "fst (login holder_req 20 (desk_world [ok ''credential''])) = Ret True"
    by (simp add: login_def holder_req_def holder_def token_held_def run_defs)
  obtain y where a: "acquire_control_token desk_loads desk_rounding False holder_req
      (desk_world [ok ''token 7'', ok ''active 7'']) = Some y" and b: "fst y = Ret True"
    by (simp add: acquire_control_token_def store_control_token_def is_control_token_active_def
        holder_req_def holder_def token_held_def run_defs load_key_def desk_loads_def)
  from u a have "control_token_req (fst (snd y)) = control_token_req holder_req" by blast
  with t q l a b show ?thesis by auto
qed

end
